theory Spec2Isabelle
  imports Main "HOL-Library.Word" "HOL-Library.Multiset"
begin

unbundle bit_operations_syntax

section \<open>Machine types shared by the packages\<close>

type_synonym byte = "8 word"
type_synonym u32 = "32 word"
type_synonym u64 = "64 word"

text \<open>
  A Go \<^verbatim>\<open>[32]byte\<close> (hashes, asset IDs, tree keys) is a 256-bit word read
  little-endian: byte \<open>i\<close> of the array is bits \<open>8 * i .. 8 * i + 7\<close> of the word.
\<close>

type_synonym hash = "256 word"

text \<open>A secp256k1 public key (\<^verbatim>\<open>btcec.PublicKey\<close>): its two field coordinates.\<close>

record PublicKey =
  pk_x :: "256 word"
  pk_y :: "256 word"

section \<open>Package tappsbt: BIP-0032 derivation paths\<close>

text \<open>
  \<^verbatim>\<open>hdkeychain.HardenedKeyStart\<close> is \<open>0x80000000\<close> and
  \<^verbatim>\<open>keychain.BIP0043Purpose\<close> is \<open>1017\<close>; both are constants of imported
  libraries.
\<close>

definition HardenedKeyStart :: u32 where
  "HardenedKeyStart = 0x80000000"

definition BIP0043Purpose :: u32 where
  "BIP0043Purpose = 1017"

record KeyLocator =
  Family :: u32
  Index :: u32

record KeyDescriptor = KeyLocator +
  PubKey :: PublicKey

record Bip32Derivation =
  DerivPubKey :: "byte list"
  MasterKeyFingerprint :: u32
  Bip32Path :: "u32 list"

record TaprootBip32Derivation =
  XOnlyPubKey :: "byte list"
  TrMasterKeyFingerprint :: u32
  TrBip32Path :: "u32 list"
  LeafHashes :: "byte list list"

text \<open>
  The errors of the package are \<^verbatim>\<open>fmt.Errorf\<close> values; each message is a
  constructor, a wrapped error (\<^verbatim>\<open>%w\<close>) carries the error it wraps.
  \<open>PanicSliceBounds\<close> is the run-time panic of slicing \<^verbatim>\<open>b[1:]\<close> on an empty
  slice.
\<close>

datatype psbt_error =
    ErrInvalidPathLength nat
  | ErrInvalidPurpose u32
  | ErrKeyFamilyNotHardened
  | ErrPubKeyMissing
  | ErrParsingPubKey
  | ErrExtractLocator psbt_error
  | PanicSliceBounds

text \<open>\<^verbatim>\<open>extractLocatorFromPath\<close>: the checks in the order of the source.\<close>

definition extractLocatorFromPath :: "u32 list \<Rightarrow> psbt_error + KeyLocator" where
  "extractLocatorFromPath path =
     (if length path \<noteq> 5 then Inl (ErrInvalidPathLength (length path))
      else if path ! 0 \<noteq> BIP0043Purpose + HardenedKeyStart
        then Inl (ErrInvalidPurpose (path ! 0))
      else if path ! 2 < HardenedKeyStart then Inl ErrKeyFamilyNotHardened
      else Inr \<lparr>Family = path ! 2 - HardenedKeyStart, Index = path ! 4\<rparr>)"

text \<open>
  \<^verbatim>\<open>KeyDescFromBip32Derivation\<close>. \<^verbatim>\<open>btcec.ParsePubKey\<close> is a library
  function and a parameter here; \<open>None\<close> is its error.
\<close>

definition KeyDescFromBip32Derivation ::
  "(byte list \<Rightarrow> PublicKey option) \<Rightarrow> Bip32Derivation \<Rightarrow> psbt_error + KeyDescriptor" where
  "KeyDescFromBip32Derivation ParsePubKey bip32Derivation =
     (if length (DerivPubKey bip32Derivation) = 0 then Inl ErrPubKeyMissing
      else case ParsePubKey (DerivPubKey bip32Derivation) of
        None \<Rightarrow> Inl ErrParsingPubKey
      | Some pubKey \<Rightarrow>
          (case extractLocatorFromPath (Bip32Path bip32Derivation) of
            Inl err \<Rightarrow> Inl (ErrExtractLocator err)
          | Inr keyLocator \<Rightarrow>
              Inr \<lparr>Family = Family keyLocator, Index = Index keyLocator,
                   PubKey = pubKey\<rparr>))"

text \<open>
  \<^verbatim>\<open>Bip32DerivationFromKeyDesc\<close>. \<^verbatim>\<open>SerializeCompressed\<close> is a library
  function and a parameter here. The additions are on \<^verbatim>\<open>uint32\<close> and wrap
  around. The master key fingerprint is left at its zero value.
\<close>

definition Bip32DerivationFromKeyDesc ::
  "(PublicKey \<Rightarrow> byte list) \<Rightarrow> KeyDescriptor \<Rightarrow> u32 \<Rightarrow>
     psbt_error + (Bip32Derivation \<times> TaprootBip32Derivation)" where
  "Bip32DerivationFromKeyDesc SerializeCompressed keyDesc coinType =
     (let bip32Derivation =
            \<lparr>DerivPubKey = SerializeCompressed (PubKey keyDesc),
             MasterKeyFingerprint = 0,
             Bip32Path =
               [BIP0043Purpose + HardenedKeyStart,
                coinType + HardenedKeyStart,
                Family keyDesc + HardenedKeyStart,
                0,
                Index keyDesc]\<rparr>
      in if DerivPubKey bip32Derivation = [] then Inl PanicSliceBounds
         else Inr (bip32Derivation,
           \<lparr>XOnlyPubKey = tl (DerivPubKey bip32Derivation),
            TrMasterKeyFingerprint = MasterKeyFingerprint bip32Derivation,
            TrBip32Path = Bip32Path bip32Derivation,
            LeafHashes = []\<rparr>))"

text \<open>A toy pair of serialisation functions, used to run the round trip on a value.\<close>

definition toySerialize :: "PublicKey \<Rightarrow> byte list" where
  "toySerialize pk = [if bit (pk_y pk) 0 then 3 else 2, ucast (pk_x pk)]"

definition toyParse :: "byte list \<Rightarrow> PublicKey option" where
  "toyParse bs =
     (case bs of
        [p, x] \<Rightarrow> if p = 2 then Some \<lparr>pk_x = ucast x, pk_y = 0\<rparr>
                  else if p = 3 then Some \<lparr>pk_x = ucast x, pk_y = 1\<rparr>
                  else None
      | _ \<Rightarrow> None)"

section \<open>Package asset: what the commitment package reads of an asset\<close>

datatype AssetType = Normal | Collectible

record OutPoint =
  Hash :: hash
  OutIndex :: u32

record Genesis =
  FirstPrevOut :: OutPoint
  Tag :: string
  MetaHash :: hash
  OutputIndex :: u32
  Type :: AssetType

text \<open>A group key: the tweaked group public key and the signature over the asset ID.\<close>

record GroupKey =
  GroupPubKey :: PublicKey
  Sig :: "byte list"

text \<open>
  An asset. \<^verbatim>\<open>Genesis\<close> is an embedded struct in the source, so the source's
  \<^verbatim>\<open>asset.Type\<close> is \<open>Type (Genesis asset)\<close> here. \<^verbatim>\<open>GroupKey\<close> is a pointer;
  \<open>None\<close> is \<^verbatim>\<open>nil\<close>. The fields that the commitment package never reads (lock
  times, previous witnesses, split commitment root, script version) are left out.
\<close>

record Asset =
  AssetVersion :: byte
  Genesis :: Genesis
  Amount :: u64
  ScriptKey :: PublicKey
  GroupKey :: "GroupKey option"

text \<open>
  Modelled from the spec: \<^verbatim>\<open>asset.GroupKey.IsEqualGroup\<close> is not under src/. The
  members of a commitment share the same group key: two group keys describe the same
  group when both are absent, or both are present with the same group public key.
\<close>

definition IsEqualGroup :: "GroupKey option \<Rightarrow> GroupKey option \<Rightarrow> bool" where
  "IsEqualGroup g otherGroupKey =
     (case g of
        None \<Rightarrow> otherGroupKey = None
      | Some k \<Rightarrow>
          (case otherGroupKey of
             None \<Rightarrow> False
           | Some k' \<Rightarrow> GroupPubKey k = GroupPubKey k'))"

section \<open>Package mssmt: the merkle-sum sparse merkle tree\<close>

text \<open>
  Package mssmt is not under src/. The commitment package uses its leaf nodes
  (\<^verbatim>\<open>NewLeafNode(value, sum)\<close>), its branch nodes (\<^verbatim>\<open>Left\<close>, \<^verbatim>\<open>Right\<close>,
  \<^verbatim>\<open>NodeHash\<close>, \<^verbatim>\<open>NodeSum\<close>) and its compacted tree (\<^verbatim>\<open>NewCompactedTree\<close>,
  \<^verbatim>\<open>Insert\<close>, \<^verbatim>\<open>Root\<close>). The definitions of this section are modelled from
  section 4.A of the spec.
\<close>

text \<open>Modelled from the spec: a leaf of the tree, a value with a \<^verbatim>\<open>uint64\<close> sum.\<close>

record LeafNode =
  LeafValue :: "byte list"
  LeafSum :: u64

text \<open>Modelled from the spec: the constructor of a leaf (mssmt is not under src/).\<close>

definition NewLeafNode :: "byte list \<Rightarrow> u64 \<Rightarrow> LeafNode" where
  "NewLeafNode v s = \<lparr>LeafValue = v, LeafSum = s\<rparr>"

text \<open>Modelled from the spec: the leaf of an absent key, with no value and sum 0.\<close>

definition EmptyLeafNode :: LeafNode where
  "EmptyLeafNode = NewLeafNode [] 0"

text \<open>
  Modelled from the spec: a node below the root (mssmt is not under src/) is an empty
  subtree, a compacted leaf tagged with its key, which stands for a subtree holding a
  single leaf, or a branch.
\<close>

datatype Node = EmptyNode | CompactedLeaf hash LeafNode | Branch Node Node

text \<open>
  The root of a tree is always a branch (\<^verbatim>\<open>*mssmt.BranchNode\<close>, with the fields
  \<^verbatim>\<open>Left\<close> and \<^verbatim>\<open>Right\<close> that \<^verbatim>\<open>Root\<close> reads).
\<close>

record BranchNode =
  Left :: Node
  Right :: Node

section \<open>Functions of other packages, taken as parameters\<close>

text \<open>
  The commitment package calls functions that are not under src/: SHA-256 and the
  BIP-340 serialisation of a public key (libraries), and of package asset the genesis
  ID, the check of a group signature, the two commitment keys of an asset and the
  encoding of an asset as a tree leaf (\<open>None\<close> is the encoding error). They are the
  fields of \<open>env\<close>; every theorem holds for every \<open>env\<close>.
\<close>

record env =
  sha256 :: "byte list \<Rightarrow> hash"
  SerializePubKey :: "PublicKey \<Rightarrow> byte list"
  GenesisID :: "Genesis \<Rightarrow> hash"
  VerifySignature :: "Genesis \<Rightarrow> byte list \<Rightarrow> PublicKey \<Rightarrow> bool"
  AssetCommitmentKey :: "Asset \<Rightarrow> hash"
  AssetTapCommitmentKey :: "Asset \<Rightarrow> hash"
  Leaf :: "Asset \<Rightarrow> LeafNode option"

subsection \<open>Byte strings\<close>

text \<open>The 32 bytes of a \<^verbatim>\<open>[32]byte\<close>, and the big-endian bytes of a \<^verbatim>\<open>uint64\<close>.\<close>

definition bytes32 :: "hash \<Rightarrow> byte list" where
  "bytes32 h = map (\<lambda>i. ucast (drop_bit (8 * i) h)) [0..<32]"

definition be64 :: "u64 \<Rightarrow> byte list" where
  "be64 s = map (\<lambda>i. ucast (drop_bit (8 * (7 - i)) s)) [0..<8]"

definition bytesOfString :: "string \<Rightarrow> byte list" where
  "bytesOfString str = map (\<lambda>c. of_nat (of_char c)) str"

subsection \<open>Node hashes and sums\<close>

text \<open>
  Modelled from the spec: package mssmt is not under src/. The tree has height 256 and
  every node carries a \<^verbatim>\<open>uint64\<close> sum. Leaf hash = H("leaf" || value_hash || sum_be).
\<close>

definition leafHash :: "env \<Rightarrow> LeafNode \<Rightarrow> hash" where
  "leafHash e l =
     sha256 e (bytesOfString ''leaf'' @ bytes32 (sha256 e (LeafValue l)) @ be64 (LeafSum l))"

text \<open>
  Modelled from the spec: branch hash =
  H("branch" || left_hash || left_sum_be || right_hash || right_sum_be).
\<close>

definition branchHash :: "env \<Rightarrow> hash \<Rightarrow> u64 \<Rightarrow> hash \<Rightarrow> u64 \<Rightarrow> hash" where
  "branchHash e lh ls rh rs =
     sha256 e (bytesOfString ''branch'' @ bytes32 lh @ be64 ls @ bytes32 rh @ be64 rs)"

text \<open>
  Modelled from the spec: the key is the path of its leaf (mssmt is not under src/).
  The bit of a key that chooses the child at a node of depth \<open>idx\<close> (the root has
  depth 0) is bit \<open>idx mod 8\<close> of byte \<open>idx div 8\<close>.
\<close>

definition bitIndex :: "nat \<Rightarrow> hash \<Rightarrow> bool" where
  "bitIndex idx key = bit key idx"

text \<open>
  Modelled from the spec: the empty-subtree table (mssmt is not under src/), the hash
  of the all-empty subtree with \<open>n\<close> levels below its root.
\<close>

fun emptyTreeHash :: "env \<Rightarrow> nat \<Rightarrow> hash" where
  "emptyTreeHash e 0 = leafHash e EmptyLeafNode"
| "emptyTreeHash e (Suc n) =
     (let h = emptyTreeHash e n in branchHash e h 0 h 0)"

text \<open>
  Modelled from the spec: compaction (mssmt is not under src/). The hash of a compacted
  leaf is the hash of the subtree with \<open>n\<close> levels below its root that holds the
  single leaf \<open>l\<close> at key \<open>k\<close>, with empty siblings. A node with \<open>Suc n\<close> levels
  below it has depth \<open>255 - n\<close>.
\<close>

fun compactedHash :: "env \<Rightarrow> nat \<Rightarrow> hash \<Rightarrow> LeafNode \<Rightarrow> hash" where
  "compactedHash e 0 k l = leafHash e l"
| "compactedHash e (Suc n) k l =
     (if bitIndex (255 - n) k
      then branchHash e (emptyTreeHash e n) 0 (compactedHash e n k l) (LeafSum l)
      else branchHash e (compactedHash e n k l) (LeafSum l) (emptyTreeHash e n) 0)"

text \<open>
  Modelled from the spec: the sum of a node (mssmt is not under src/); the sum of a
  branch is the \<^verbatim>\<open>uint64\<close> sum of the sums of its children.
\<close>

fun NodeSum :: "Node \<Rightarrow> u64" where
  "NodeSum EmptyNode = 0"
| "NodeSum (CompactedLeaf k l) = LeafSum l"
| "NodeSum (Branch l r) = NodeSum l + NodeSum r"

text \<open>
  Modelled from the spec: the hash of a node with \<open>n\<close> levels below it (mssmt is not
  under src/).
\<close>

fun NodeHash :: "env \<Rightarrow> nat \<Rightarrow> Node \<Rightarrow> hash" where
  "NodeHash e n EmptyNode = emptyTreeHash e n"
| "NodeHash e n (CompactedLeaf k l) = compactedHash e n k l"
| "NodeHash e n (Branch l r) =
     branchHash e (NodeHash e (n - 1) l) (NodeSum l) (NodeHash e (n - 1) r) (NodeSum r)"

text \<open>Modelled from the spec: the sum of the root branch (mssmt is not under src/).\<close>

definition BranchNodeSum :: "BranchNode \<Rightarrow> u64" where
  "BranchNodeSum b = NodeSum (Left b) + NodeSum (Right b)"

subsection \<open>Insertion\<close>

text \<open>
  Modelled from the spec: \<open>insert(key, value)\<close> of the compacted tree (mssmt is not
  under src/). \<open>merge\<close> builds the subtree with \<open>n\<close> levels below its root that
  holds two leaves with different keys: empty siblings down to the first bit where the
  keys differ, then a branch over the two compacted leaves.
\<close>

fun merge :: "nat \<Rightarrow> hash \<Rightarrow> LeafNode \<Rightarrow> hash \<Rightarrow> LeafNode \<Rightarrow> Node" where
  "merge 0 k1 l1 k2 l2 = CompactedLeaf k1 l1"
| "merge (Suc n) k1 l1 k2 l2 =
     (if bitIndex (255 - n) k1 = bitIndex (255 - n) k2
      then (if bitIndex (255 - n) k1
            then Branch EmptyNode (merge n k1 l1 k2 l2)
            else Branch (merge n k1 l1 k2 l2) EmptyNode)
      else (if bitIndex (255 - n) k1
            then Branch (CompactedLeaf k2 l2) (CompactedLeaf k1 l1)
            else Branch (CompactedLeaf k1 l1) (CompactedLeaf k2 l2)))"

text \<open>
  Modelled from the spec: \<open>insert(key, value)\<close> into a node with \<open>n\<close> levels below
  it (mssmt is not under src/). An empty subtree becomes a compacted leaf, a compacted
  leaf with the same key is replaced, one with another key is merged, and a branch
  passes the leaf to the child that the bit of the key chooses.
\<close>

fun insertAt :: "nat \<Rightarrow> hash \<Rightarrow> LeafNode \<Rightarrow> Node \<Rightarrow> Node" where
  "insertAt 0 k l t = CompactedLeaf k l"
| "insertAt (Suc n) k l EmptyNode = CompactedLeaf k l"
| "insertAt (Suc n) k l (CompactedLeaf k' l') =
     (if k = k' then CompactedLeaf k l else merge (Suc n) k l k' l')"
| "insertAt (Suc n) k l (Branch lt rt) =
     (if bitIndex (255 - n) k
      then Branch lt (insertAt n k l rt)
      else Branch (insertAt n k l lt) rt)"

text \<open>Modelled from the spec: the empty tree (mssmt is not under src/).\<close>

definition NewCompactedTree :: BranchNode where
  "NewCompactedTree = \<lparr>Left = EmptyNode, Right = EmptyNode\<rparr>"

text \<open>
  Modelled from the spec: \<open>insert(key, value)\<close> at the root (mssmt is not under src/);
  the children of the root have 255 levels below them.
\<close>

definition Insert :: "BranchNode \<Rightarrow> hash \<Rightarrow> LeafNode \<Rightarrow> BranchNode" where
  "Insert t key leaf =
     (if bitIndex 0 key
      then t\<lparr>Right := insertAt 255 key leaf (Right t)\<rparr>
      else t\<lparr>Left := insertAt 255 key leaf (Left t)\<rparr>)"

section \<open>Package commitment: the asset commitment\<close>

text \<open>
  The errors of the package. The duplicate-script-key error wraps the key it found
  twice. \<open>ErrLeafEncode\<close> is the error of \<^verbatim>\<open>asset.Leaf\<close>; \<open>PanicNilPointer\<close> and
  \<open>PanicNilMap\<close> are the run-time panics of a call through a \<^verbatim>\<open>nil\<close> pointer and
  of an assignment into a \<^verbatim>\<open>nil\<close> map.
\<close>

datatype commitment_error =
    ErrNoAssets
  | ErrAssetGenesisMismatch
  | ErrAssetTypeMismatch
  | ErrAssetGroupKeyMismatch
  | ErrAssetDuplicateScriptKey hash
  | ErrAssetGenesisInvalidSig
  | ErrLeafEncode
  | PanicNilPointer
  | PanicNilMap

type_synonym CommittedAssets = "hash \<rightharpoonup> Asset"

text \<open>
  \<^verbatim>\<open>TreeRoot\<close>, \<^verbatim>\<open>tree\<close> and \<^verbatim>\<open>assets\<close> are \<^verbatim>\<open>nil\<close> (\<open>None\<close>) unless set.
\<close>

record AssetCommitment =
  Version :: byte
  AssetID :: hash
  TreeRoot :: "BranchNode option"
  tree :: "BranchNode option"
  assets :: "CommittedAssets option"

text \<open>
  The \<^verbatim>\<open>switch\<close> in the loop of \<^verbatim>\<open>parseCommon\<close>, cases in the order of the
  source: the error it returns for one asset, if any.
\<close>

definition checkCommon ::
  "env \<Rightarrow> hash \<Rightarrow> GroupKey option \<Rightarrow> Asset \<Rightarrow> commitment_error option" where
  "checkCommon e assetGenesis assetGroupKey asset =
     (if \<not> IsEqualGroup assetGroupKey (GroupKey asset) then Some ErrAssetGroupKeyMismatch
      else case assetGroupKey of
        None \<Rightarrow>
          if assetGenesis \<noteq> GenesisID e (Genesis asset) then Some ErrAssetGenesisMismatch
          else None
      | Some gk \<Rightarrow>
          (case GroupKey asset of
             None \<Rightarrow> Some PanicNilPointer
           | Some agk \<Rightarrow>
               if \<not> VerifySignature e (Genesis asset) (Sig agk) (GroupPubKey gk)
               then Some ErrAssetGenesisInvalidSig
               else None))"

text \<open>The loop of \<^verbatim>\<open>parseCommon\<close> over the assets, with its two accumulators.\<close>

fun parseCommonLoop ::
  "env \<Rightarrow> hash \<Rightarrow> GroupKey option \<Rightarrow> Asset list \<Rightarrow> byte \<Rightarrow> CommittedAssets \<Rightarrow>
     commitment_error + (byte \<times> CommittedAssets)" where
  "parseCommonLoop e assetGenesis assetGroupKey [] maxVersion assetsMap =
     Inr (maxVersion, assetsMap)"
| "parseCommonLoop e assetGenesis assetGroupKey (asset # rest) maxVersion assetsMap =
     (case checkCommon e assetGenesis assetGroupKey asset of
        Some err \<Rightarrow> Inl err
      | None \<Rightarrow>
          (let key = AssetCommitmentKey e asset in
           if assetsMap key \<noteq> None then Inl (ErrAssetDuplicateScriptKey key)
           else parseCommonLoop e assetGenesis assetGroupKey rest
                  (if AssetVersion asset > maxVersion then AssetVersion asset else maxVersion)
                  (assetsMap(key \<mapsto> asset))))"

definition parseCommon :: "env \<Rightarrow> Asset list \<Rightarrow> commitment_error + AssetCommitment" where
  "parseCommon e assetList =
     (case assetList of
        [] \<Rightarrow> Inl ErrNoAssets
      | first # _ \<Rightarrow>
          (let assetGenesis = GenesisID e (Genesis first);
               assetGroupKey = GroupKey first
           in case parseCommonLoop e assetGenesis assetGroupKey assetList 0 Map.empty of
                Inl err \<Rightarrow> Inl err
              | Inr (maxVersion, assetsMap) \<Rightarrow>
                  (let assetID =
                         (case assetGroupKey of
                            None \<Rightarrow> assetGenesis
                          | Some gk \<Rightarrow> sha256 e (SerializePubKey e (GroupPubKey gk)))
                   in Inr \<lparr>Version = maxVersion, AssetID = assetID, TreeRoot = None,
                           tree = None, assets = Some assetsMap\<rparr>)))"

text \<open>The insertion loop of \<^verbatim>\<open>NewAssetCommitment\<close>.\<close>

fun insertAssets :: "env \<Rightarrow> Asset list \<Rightarrow> BranchNode \<Rightarrow> commitment_error + BranchNode" where
  "insertAssets e [] t = Inr t"
| "insertAssets e (asset # rest) t =
     (let key = AssetCommitmentKey e asset in
      case Leaf e asset of
        None \<Rightarrow> Inl ErrLeafEncode
      | Some leaf \<Rightarrow> insertAssets e rest (Insert t key leaf))"

definition NewAssetCommitment :: "env \<Rightarrow> Asset list \<Rightarrow> commitment_error + AssetCommitment" where
  "NewAssetCommitment e assetList =
     (case parseCommon e assetList of
        Inl err \<Rightarrow> Inl err
      | Inr commitment \<Rightarrow>
          (case insertAssets e assetList NewCompactedTree of
             Inl err \<Rightarrow> Inl err
           | Inr t \<Rightarrow> Inr (commitment\<lparr>TreeRoot := Some t, tree := Some t\<rparr>)))"

text \<open>
  \<^verbatim>\<open>Upsert\<close> changes the commitment in place: the model returns the error, if any,
  and the commitment as the call leaves it. \<open>asset\<close> is a pointer (\<open>None\<close> is
  \<^verbatim>\<open>nil\<close>). \<open>randAsset\<close> is the asset that the \<^verbatim>\<open>range\<close> over \<^verbatim>\<open>c.assets\<close>
  yields first, in the unspecified order of a Go map; \<open>None\<close> when the loop body does
  not run.
\<close>

definition Upsert ::
  "env \<Rightarrow> Asset option \<Rightarrow> AssetCommitment \<Rightarrow> Asset option \<Rightarrow>
     commitment_error option \<times> AssetCommitment" where
  "Upsert e randAsset c asset =
     (case asset of
        None \<Rightarrow> (Some ErrNoAssets, c)
      | Some a \<Rightarrow>
          if (case randAsset of
                None \<Rightarrow> False
              | Some ra \<Rightarrow> Type (Genesis ra) \<noteq> Type (Genesis a))
          then (Some ErrAssetTypeMismatch, c)
          else if AssetTapCommitmentKey e a \<noteq> AssetID c
          then (if GroupKey a \<noteq> None then (Some ErrAssetGroupKeyMismatch, c)
                else (Some ErrAssetGenesisMismatch, c))
          else if (case GroupKey a of
                     None \<Rightarrow> False
                   | Some gk \<Rightarrow> \<not> VerifySignature e (Genesis a) (Sig gk) (GroupPubKey gk))
          then (Some ErrAssetGenesisInvalidSig, c)
          else
            (let key = AssetCommitmentKey e a in
             case Leaf e a of
               None \<Rightarrow> (Some ErrLeafEncode, c)
             | Some leaf \<Rightarrow>
                 (case tree c of
                    None \<Rightarrow> (Some PanicNilPointer, c)
                  | Some t \<Rightarrow>
                      (let t' = Insert t key leaf;
                           c' = c\<lparr>tree := Some t', TreeRoot := Some t'\<rparr>
                       in case assets c' of
                            None \<Rightarrow> (Some PanicNilMap, c')
                          | Some m \<Rightarrow> (None, c'\<lparr>assets := Some (m(key \<mapsto> a))\<rparr>)))))"

text \<open>
  \<^verbatim>\<open>Root\<close>, \<^verbatim>\<open>TapCommitmentKey\<close> and \<^verbatim>\<open>TapCommitmentLeaf\<close>. \<open>None\<close> is the
  panic of reading through a \<^verbatim>\<open>nil\<close> \<^verbatim>\<open>TreeRoot\<close>. The children of the root have
  255 levels below them.
\<close>

definition Root :: "env \<Rightarrow> AssetCommitment \<Rightarrow> hash option" where
  "Root e c =
     (case TreeRoot c of
        None \<Rightarrow> None
      | Some r \<Rightarrow>
          (let left = NodeHash e 255 (Left r);
               right = NodeHash e 255 (Right r)
           in Some (sha256 e (bytes32 (AssetID c) @ bytes32 left @ bytes32 right @
                              be64 (BranchNodeSum r)))))"

definition TapCommitmentKey :: "AssetCommitment \<Rightarrow> hash" where
  "TapCommitmentKey c = AssetID c"

definition TapCommitmentLeaf :: "env \<Rightarrow> AssetCommitment \<Rightarrow> LeafNode option" where
  "TapCommitmentLeaf e c =
     (case Root e c of
        None \<Rightarrow> None
      | Some root \<Rightarrow>
          (case TreeRoot c of
             None \<Rightarrow> None
           | Some r \<Rightarrow>
               (let sum = BranchNodeSum r
                in Some (NewLeafNode ([Version c] @ bytes32 root @ be64 sum) sum))))"

text \<open>A toy environment, used to run the functions on values.\<close>

definition toyEnv :: env where
  "toyEnv =
     \<lparr>sha256 = (\<lambda>bs. of_nat (length bs) + 7 * ucast (foldr (+) bs 0)),
      SerializePubKey = (\<lambda>pk. [ucast (pk_x pk)]),
      GenesisID = (\<lambda>g. MetaHash g + ucast (OutputIndex g)),
      VerifySignature = (\<lambda>g sg pk. sg = [ucast (pk_x pk), ucast (OutputIndex g)]),
      AssetCommitmentKey = (\<lambda>a. MetaHash (Genesis a) + ucast (OutputIndex (Genesis a))
                                   + 16 * pk_x (ScriptKey a)),
      AssetTapCommitmentKey =
        (\<lambda>a. case GroupKey a of
                None \<Rightarrow> MetaHash (Genesis a) + ucast (OutputIndex (Genesis a))
              | Some gk \<Rightarrow> 1 + 7 * ucast (ucast (pk_x (GroupPubKey gk)) :: byte)),
      Leaf = (\<lambda>a. Some (NewLeafNode [AssetVersion a, ucast (pk_x (ScriptKey a))] (Amount a)))\<rparr>"

section \<open>Package tapfreighter: coin selection\<close>

text \<open>
  \<^verbatim>\<open>AnchoredCommitment\<close> as declared in the source, without the tapscript sibling
  and the full Taproot Asset commitment, which the selection does not read.
\<close>

record AnchoredCommitment =
  AnchorPoint :: OutPoint
  AnchorOutputValue :: int
  InternalKey :: KeyDescriptor
  Asset :: Asset

datatype MultiCommitmentSelectStrategy = PreferMaxAmount

datatype freighter_error = ErrMatchingAssetsNotFound

text \<open>
  Modelled from the spec: the implementation of \<^verbatim>\<open>SelectForAmount\<close> (interface
  \<^verbatim>\<open>CoinSelector\<close>) is not under src/. The selector applies strategy
  \<^verbatim>\<open>PreferMaxAmount\<close>: sort descending by amount, take the prefix whose cumulative
  sum reaches the minimum; if the commitments are exhausted without reaching it, fail
  with \<^verbatim>\<open>MatchingAssetsNotFound\<close>. The cumulative sum is the sum of the amounts as
  natural numbers.
\<close>

definition commitmentAmount :: "AnchoredCommitment \<Rightarrow> nat" where
  "commitmentAmount c = unat (Amount (Asset c))"

text \<open>Modelled from the spec: sort descending by amount (no implementation under src/).\<close>

definition sortDescending :: "AnchoredCommitment list \<Rightarrow> AnchoredCommitment list" where
  "sortDescending cs = rev (sort_key commitmentAmount cs)"

text \<open>
  Modelled from the spec: take the prefix whose cumulative sum reaches the minimum, or
  fail when the commitments are exhausted (no implementation under src/).
\<close>

fun takePrefix ::
  "nat \<Rightarrow> nat \<Rightarrow> AnchoredCommitment list \<Rightarrow> AnchoredCommitment list \<Rightarrow>
     freighter_error + AnchoredCommitment list" where
  "takePrefix minTotal amountSum selected [] =
     (if minTotal \<le> amountSum then Inr selected else Inl ErrMatchingAssetsNotFound)"
| "takePrefix minTotal amountSum selected (c # rest) =
     (if minTotal \<le> amountSum then Inr selected
      else takePrefix minTotal (amountSum + commitmentAmount c) (selected @ [c]) rest)"

text \<open>
  Modelled from the spec: \<^verbatim>\<open>SelectForAmount\<close> of interface \<^verbatim>\<open>CoinSelector\<close>, whose
  implementation is not under src/.
\<close>

definition SelectForAmount ::
  "u64 \<Rightarrow> AnchoredCommitment list \<Rightarrow> MultiCommitmentSelectStrategy \<Rightarrow>
     freighter_error + AnchoredCommitment list" where
  "SelectForAmount minTotalAmount eligibleCommitments strategy =
     (case strategy of
        PreferMaxAmount \<Rightarrow>
          takePrefix (unat minTotalAmount) 0 [] (sortDescending eligibleCommitments))"

section \<open>Package tapgarden: the states of a minting batch\<close>

text \<open>
  Modelled from the spec: the planter and its caretakers are not under src/ (only their
  test is). Batch states: Pending, Frozen, Committed, Broadcast, Confirmed, Finalized,
  plus SeedlingCancelled (before Frozen) and SproutCancelled (between Frozen and
  Broadcast). After Broadcast, a cancellation request returns the batch key of the
  broadcast batch, with the batch-not-cancellable error, and does not alter the state.
  \<open>nextState\<close> is the step of the caretaker; from Broadcast it is the confirmation.
\<close>

datatype BatchState =
    BatchStatePending
  | BatchStateFrozen
  | BatchStateCommitted
  | BatchStateBroadcast
  | BatchStateConfirmed
  | BatchStateFinalized
  | BatchStateSeedlingCancelled
  | BatchStateSproutCancelled

record MintingBatch =
  BatchKey :: PublicKey
  BatchState :: BatchState
  Seedlings :: "string list"

datatype mint_error = ErrNoPendingBatch | ErrBatchNotCancellable

text \<open>
  Modelled from the spec: \<^verbatim>\<open>CancelBatch\<close> of the planter, which is not under src/.
  It returns the batch key, the error, and the batch as the request leaves it. The two
  errors are the ones the test of the planter expects ("batch not cancellable", with
  the batch key, and "no pending batch", without one).
\<close>

definition CancelBatch ::
  "MintingBatch \<Rightarrow> (PublicKey option \<times> mint_error option) \<times> MintingBatch" where
  "CancelBatch b =
     (case BatchState b of
        BatchStatePending \<Rightarrow>
          ((Some (BatchKey b), None), b\<lparr>BatchState := BatchStateSeedlingCancelled\<rparr>)
      | BatchStateFrozen \<Rightarrow>
          ((Some (BatchKey b), None), b\<lparr>BatchState := BatchStateSproutCancelled\<rparr>)
      | BatchStateCommitted \<Rightarrow>
          ((Some (BatchKey b), None), b\<lparr>BatchState := BatchStateSproutCancelled\<rparr>)
      | BatchStateBroadcast \<Rightarrow> ((Some (BatchKey b), Some ErrBatchNotCancellable), b)
      | BatchStateConfirmed \<Rightarrow> ((Some (BatchKey b), Some ErrBatchNotCancellable), b)
      | BatchStateFinalized \<Rightarrow> ((Some (BatchKey b), Some ErrBatchNotCancellable), b)
      | BatchStateSeedlingCancelled \<Rightarrow> ((None, Some ErrNoPendingBatch), b)
      | BatchStateSproutCancelled \<Rightarrow> ((None, Some ErrNoPendingBatch), b))"

text \<open>
  Modelled from the spec: the step of the caretaker, which is not under src/, along
  Pending, Frozen, Committed, Broadcast, Confirmed, Finalized.
\<close>

fun nextState :: "BatchState \<Rightarrow> BatchState" where
  "nextState BatchStatePending = BatchStateFrozen"
| "nextState BatchStateFrozen = BatchStateCommitted"
| "nextState BatchStateCommitted = BatchStateBroadcast"
| "nextState BatchStateBroadcast = BatchStateConfirmed"
| "nextState BatchStateConfirmed = BatchStateFinalized"
| "nextState BatchStateFinalized = BatchStateFinalized"
| "nextState BatchStateSeedlingCancelled = BatchStateSeedlingCancelled"
| "nextState BatchStateSproutCancelled = BatchStateSproutCancelled"

text \<open>
  Modelled from the spec: what can happen to a batch (planter and caretaker are not
  under src/): a cancellation request, or a step of its caretaker.
\<close>

datatype batch_event = CancelRequest | CaretakerStep

fun applyEvent :: "batch_event \<Rightarrow> MintingBatch \<Rightarrow> MintingBatch" where
  "applyEvent CancelRequest b = snd (CancelBatch b)"
| "applyEvent CaretakerStep b = b\<lparr>BatchState := nextState (BatchState b)\<rparr>"

section \<open>Auxiliary notions for the proofs\<close>

text \<open>The identifier that \<^verbatim>\<open>parseCommon\<close> computes, as a function of one asset.\<close>

definition commonID :: "env \<Rightarrow> Asset \<Rightarrow> hash" where
  "commonID e a =
     (case GroupKey a of
        None \<Rightarrow> GenesisID e (Genesis a)
      | Some gk \<Rightarrow> sha256 e (SerializePubKey e (GroupPubKey gk)))"

text \<open>The signature of a grouped asset verifies under the group public key of \<open>gk\<close>.\<close>

definition sigVerifies :: "env \<Rightarrow> GroupKey \<Rightarrow> Asset \<Rightarrow> bool" where
  "sigVerifies e gk a =
     (case GroupKey a of
        None \<Rightarrow> False
      | Some agk \<Rightarrow> VerifySignature e (Genesis a) (Sig agk) (GroupPubKey gk))"

text \<open>
  Two keys share the path down to a node with \<open>n\<close> levels below it; a key fits a
  node when the leaves it meets on its path share that path; a root fits every key.
\<close>

definition sharePrefix :: "nat \<Rightarrow> hash \<Rightarrow> hash \<Rightarrow> bool" where
  "sharePrefix n k k' = (\<forall>i < 256 - n. bitIndex i k = bitIndex i k')"

fun fits :: "nat \<Rightarrow> hash \<Rightarrow> Node \<Rightarrow> bool" where
  "fits n k EmptyNode = True"
| "fits n k (CompactedLeaf k' l') = sharePrefix n k k'"
| "fits 0 k (Branch lt rt) = False"
| "fits (Suc n) k (Branch lt rt) =
     (if bitIndex (255 - n) k then fits n k rt else fits n k lt)"

definition rootFits :: "BranchNode \<Rightarrow> bool" where
  "rootFits t = (\<forall>k. if bitIndex 0 k then fits 255 k (Right t) else fits 255 k (Left t))"

text \<open>One step of the insertion loop, for assets whose leaf encodes.\<close>

definition insertAsset :: "env \<Rightarrow> Asset \<Rightarrow> BranchNode \<Rightarrow> BranchNode" where
  "insertAsset e a t = Insert t (AssetCommitmentKey e a) (the (Leaf e a))"

definition totalAmount :: "AnchoredCommitment list \<Rightarrow> nat" where
  "totalAmount cs = sum_list (map commitmentAmount cs)"

definition afterBroadcast :: "BatchState \<Rightarrow> bool" where
  "afterBroadcast s \<longleftrightarrow>
     s = BatchStateBroadcast \<or> s = BatchStateConfirmed \<or> s = BatchStateFinalized"

section \<open>Toy values\<close>

definition toyGenesis :: "u32 \<Rightarrow> Genesis" where
  "toyGenesis i =
     \<lparr>FirstPrevOut = \<lparr>Hash = 1, OutIndex = 0\<rparr>, Tag = ''toy'', MetaHash = 32,
      OutputIndex = i, Type = Normal\<rparr>"

definition toyGroupKey :: "byte list \<Rightarrow> GroupKey" where
  "toyGroupKey sg = \<lparr>GroupPubKey = \<lparr>pk_x = 9, pk_y = 2\<rparr>, Sig = sg\<rparr>"

definition toyAsset :: "u32 \<Rightarrow> 256 word \<Rightarrow> u64 \<Rightarrow> GroupKey option \<Rightarrow> Asset" where
  "toyAsset i sk amt gk =
     \<lparr>AssetVersion = 0, Genesis = toyGenesis i, Amount = amt,
      ScriptKey = \<lparr>pk_x = sk, pk_y = 0\<rparr>, GroupKey = gk\<rparr>"

definition toyCommitment :: "hash \<Rightarrow> AssetCommitment" where
  "toyCommitment h =
     \<lparr>Version = 0, AssetID = h, TreeRoot = Some NewCompactedTree,
      tree = Some NewCompactedTree, assets = Some Map.empty\<rparr>"

definition toyAnchored :: "u64 \<Rightarrow> AnchoredCommitment" where
  "toyAnchored amt =
     \<lparr>AnchorPoint = \<lparr>Hash = 1, OutIndex = 0\<rparr>, AnchorOutputValue = 1000,
      InternalKey = \<lparr>Family = 212, Index = 0, PubKey = \<lparr>pk_x = 5, pk_y = 1\<rparr>\<rparr>,
      Asset = toyAsset 0 1 amt None\<rparr>"

definition toyBatch :: "BatchState \<Rightarrow> MintingBatch" where
  "toyBatch st =
     \<lparr>BatchKey = \<lparr>pk_x = 5, pk_y = 1\<rparr>, BatchState = st, Seedlings = [''a'', ''b'']\<rparr>"

section \<open>Properties of the derivation paths\<close>

text \<open>
  Claim C7, as the code has it: \<^verbatim>\<open>extractLocatorFromPath\<close> accepts a path
  exactly when it has five elements, its first element is the hardened purpose
  \<open>1017 + 0x80000000\<close> and its third element is hardened (at least \<open>0x80000000\<close>).
  The second element (the coin type) and the fourth are not inspected. Every other
  path is rejected with an error, and on success the locator carries the third
  element minus \<open>0x80000000\<close> as key family and the fifth element as index.
\<close>

theorem extractLocatorFromPath_accepts:
  "(length path = 5 \<and> path ! 0 = 1017 + 0x80000000 \<and> 0x80000000 \<le> path ! 2
      \<longrightarrow> extractLocatorFromPath path =
            Inr \<lparr>Family = path ! 2 - 0x80000000, Index = path ! 4\<rparr>) \<and>
   (\<not> (length path = 5 \<and> path ! 0 = 1017 + 0x80000000 \<and> 0x80000000 \<le> path ! 2)
      \<longrightarrow> (\<exists>err. extractLocatorFromPath path = Inl err))"
  by (auto simp: extractLocatorFromPath_def HardenedKeyStart_def BIP0043Purpose_def
      not_less)

theorem extractLocatorFromPath_accepts_witness:
  "extractLocatorFromPath [0x800003F9, 0x80000000, 0x800000D4, 0, 7] =
     Inr \<lparr>Family = 212, Index = 7\<rparr> \<and>
   (\<exists>err. extractLocatorFromPath [0x800003F9, 0x80000000, 0xD4, 0, 7] = Inl err)"
  using extractLocatorFromPath_accepts [of "[0x800003F9, 0x80000000, 0x800000D4, 0, 7]"]
    extractLocatorFromPath_accepts [of "[0x800003F9, 0x80000000, 0xD4, 0, 7]"]
  by simp

text \<open>
  The claim as written fails: a path whose second element is not hardened is
  accepted.
\<close>

theorem extractLocatorFromPath_unhardened_coin_type:
  "extractLocatorFromPath [0x800003F9, 0, 0x800000D4, 0, 7] =
     Inr \<lparr>Family = 212, Index = 7\<rparr> \<and>
   [0x800003F9, 0, 0x800000D4, 0, 7] ! 1 < HardenedKeyStart"
  by (simp add: extractLocatorFromPath_def HardenedKeyStart_def BIP0043Purpose_def)

lemma hardened_add_not_less:
  "(f::u32) < 0x80000000 \<Longrightarrow> \<not> f + 0x80000000 < 0x80000000"
  by (simp add: word_less_nat_alt unat_word_ariths)

text \<open>
  Claim C10, as the code has it: for a key descriptor whose public key
  serialises to a non-empty string that parses back to the same key, whose key family
  is below \<open>0x80000000\<close>, and for every coin type, the default derivation of
  \<^verbatim>\<open>Bip32DerivationFromKeyDesc\<close> is turned back into the same key descriptor
  (public key, key family and index) by \<^verbatim>\<open>KeyDescFromBip32Derivation\<close>.
\<close>

theorem Bip32Derivation_roundtrip:
  fixes keyDesc :: KeyDescriptor
  assumes "ParsePubKey (SerializeCompressed (PubKey keyDesc)) = Some (PubKey keyDesc)"
    and "SerializeCompressed (PubKey keyDesc) \<noteq> []"
    and "Family keyDesc < HardenedKeyStart"
  shows "\<exists>d t. Bip32DerivationFromKeyDesc SerializeCompressed keyDesc coinType = Inr (d, t) \<and>
           KeyDescFromBip32Derivation ParsePubKey d = Inr keyDesc"
  using assms hardened_add_not_less [of "Family keyDesc"]
  by (simp add: Bip32DerivationFromKeyDesc_def KeyDescFromBip32Derivation_def
      extractLocatorFromPath_def HardenedKeyStart_def Let_def)

theorem Bip32Derivation_roundtrip_witness:
  "toyParse (toySerialize (PubKey \<lparr>Family = 212, Index = 7, PubKey = \<lparr>pk_x = 5, pk_y = 1\<rparr>\<rparr>)) =
     Some (PubKey \<lparr>Family = 212, Index = 7, PubKey = \<lparr>pk_x = 5, pk_y = 1\<rparr>\<rparr>) \<and>
   toySerialize (PubKey \<lparr>Family = 212, Index = 7, PubKey = \<lparr>pk_x = 5, pk_y = 1\<rparr>\<rparr>) \<noteq> [] \<and>
   Family \<lparr>Family = 212, Index = 7, PubKey = \<lparr>pk_x = 5, pk_y = 1\<rparr>\<rparr> < HardenedKeyStart \<and>
   (\<exists>d t. Bip32DerivationFromKeyDesc toySerialize
            \<lparr>Family = 212, Index = 7, PubKey = \<lparr>pk_x = 5, pk_y = 1\<rparr>\<rparr> 1 = Inr (d, t) \<and>
          KeyDescFromBip32Derivation toyParse d =
            Inr \<lparr>Family = 212, Index = 7, PubKey = \<lparr>pk_x = 5, pk_y = 1\<rparr>\<rparr>)"
proof -
  let ?kd = "\<lparr>Family = 212, Index = 7, PubKey = \<lparr>pk_x = 5, pk_y = 1\<rparr>\<rparr>"
  have p: "toyParse (toySerialize (PubKey ?kd)) = Some (PubKey ?kd)"
    by (simp add: toyParse_def toySerialize_def)
  have s: "toySerialize (PubKey ?kd) \<noteq> []"
    by (simp add: toySerialize_def)
  have f: "Family ?kd < HardenedKeyStart"
    by (simp add: HardenedKeyStart_def)
  from Bip32Derivation_roundtrip [where ParsePubKey = toyParse
      and SerializeCompressed = toySerialize and keyDesc = ?kd and coinType = 1, OF p s f]
    p s f
  show ?thesis by blast
qed

text \<open>
  The claim as written fails: the key family \<open>0x80000000\<close> wraps around to
  \<open>0\<close> in the path, and the path is rejected.
\<close>

theorem Bip32Derivation_roundtrip_large_family:
  "Bip32DerivationFromKeyDesc toySerialize
     \<lparr>Family = 0x80000000, Index = 0, PubKey = \<lparr>pk_x = 5, pk_y = 1\<rparr>\<rparr> 0 =
     Inr (\<lparr>DerivPubKey = [3, 5], MasterKeyFingerprint = 0,
           Bip32Path = [0x800003F9, 0x80000000, 0, 0, 0]\<rparr>,
          \<lparr>XOnlyPubKey = [5], TrMasterKeyFingerprint = 0,
           TrBip32Path = [0x800003F9, 0x80000000, 0, 0, 0], LeafHashes = []\<rparr>) \<and>
   toyParse [3, 5] = Some \<lparr>pk_x = 5, pk_y = 1\<rparr> \<and>
   KeyDescFromBip32Derivation toyParse
     \<lparr>DerivPubKey = [3, 5], MasterKeyFingerprint = 0,
      Bip32Path = [0x800003F9, 0x80000000, 0, 0, 0]\<rparr> =
     Inl (ErrExtractLocator ErrKeyFamilyNotHardened)"
  by (simp add: Bip32DerivationFromKeyDesc_def KeyDescFromBip32Derivation_def
      toyParse_def toySerialize_def extractLocatorFromPath_def HardenedKeyStart_def
      BIP0043Purpose_def Let_def)

section \<open>Properties of the asset commitment\<close>

lemmas toy_defs =
  toyEnv_def toyGenesis_def toyGroupKey_def toyAsset_def toyCommitment_def toyAnchored_def
  toyBatch_def

subsection \<open>What \<^verbatim>\<open>parseCommon\<close> accepts\<close>

lemma parseCommonLoop_Inr:
  "parseCommonLoop e g gk xs v m = Inr r \<Longrightarrow>
     (\<forall>a\<in>set xs. checkCommon e g gk a = None) \<and>
     distinct (map (AssetCommitmentKey e) xs) \<and>
     (\<forall>a\<in>set xs. m (AssetCommitmentKey e a) = None)"
proof (induction xs arbitrary: v m)
  case Nil
  then show ?case by simp
next
  case (Cons a xs)
  from Cons.prems have c: "checkCommon e g gk a = None"
    by (simp split: option.splits)
  from Cons.prems c have k: "m (AssetCommitmentKey e a) = None"
    by (simp add: Let_def split: if_splits)
  from Cons.prems c k have
    "parseCommonLoop e g gk xs
       (if AssetVersion a > v then AssetVersion a else v)
       (m(AssetCommitmentKey e a \<mapsto> a)) = Inr r"
    by (simp add: Let_def)
  from Cons.IH [OF this] c k show ?case
    by (auto split: if_splits)
qed

lemma parseCommonLoop_total:
  "(\<forall>a\<in>set xs. checkCommon e g gk a = None) \<Longrightarrow>
   distinct (map (AssetCommitmentKey e) xs) \<Longrightarrow>
   (\<forall>a\<in>set xs. m (AssetCommitmentKey e a) = None) \<Longrightarrow>
   \<exists>r. parseCommonLoop e g gk xs v m = Inr r"
proof (induction xs arbitrary: v m)
  case Nil
  then show ?case by simp
next
  case (Cons a xs)
  have "\<exists>r. parseCommonLoop e g gk xs
       (if AssetVersion a > v then AssetVersion a else v)
       (m(AssetCommitmentKey e a \<mapsto> a)) = Inr r"
    using Cons.prems by (intro Cons.IH) (auto simp: image_iff)
  with Cons.prems show ?case
    by (simp add: Let_def)
qed

lemma checkCommon_None_iff:
  "checkCommon e g gk a = None \<longleftrightarrow>
     (case gk of
        None \<Rightarrow> GroupKey a = None \<and> GenesisID e (Genesis a) = g
      | Some k \<Rightarrow>
          (\<exists>k'. GroupKey a = Some k' \<and> GroupPubKey k = GroupPubKey k' \<and>
                VerifySignature e (Genesis a) (Sig k') (GroupPubKey k)))"
  by (auto simp: checkCommon_def IsEqualGroup_def split: option.splits)

lemma parseCommon_Inr:
  assumes "parseCommon e xs = Inr c"
  shows "xs \<noteq> []"
    and "\<forall>a\<in>set xs. checkCommon e (GenesisID e (Genesis (hd xs))) (GroupKey (hd xs)) a = None"
    and "distinct (map (AssetCommitmentKey e) xs)"
    and "AssetID c = commonID e (hd xs)"
proof -
  from assms obtain x rest where xs: "xs = x # rest"
    by (cases xs) (simp_all add: parseCommon_def)
  from assms xs obtain r where
    loop: "parseCommonLoop e (GenesisID e (Genesis x)) (GroupKey x) xs 0 Map.empty = Inr r"
    by (auto simp: parseCommon_def Let_def split: sum.splits)
  show "xs \<noteq> []" using xs by simp
  from parseCommonLoop_Inr [OF loop] xs
  show "\<forall>a\<in>set xs. checkCommon e (GenesisID e (Genesis (hd xs))) (GroupKey (hd xs)) a = None"
    and "distinct (map (AssetCommitmentKey e) xs)"
    by simp_all
  from assms xs loop show "AssetID c = commonID e (hd xs)"
    by (cases r) (auto simp: parseCommon_def commonID_def Let_def split: option.splits)
qed

lemma checkCommon_commonID:
  "checkCommon e (GenesisID e (Genesis x)) (GroupKey x) a = None \<Longrightarrow>
     commonID e a = commonID e x"
  by (auto simp: checkCommon_None_iff commonID_def split: option.splits)

lemma NewAssetCommitment_Inr:
  assumes "NewAssetCommitment e xs = Inr c"
  shows "\<exists>c0 t. parseCommon e xs = Inr c0 \<and> insertAssets e xs NewCompactedTree = Inr t \<and>
           c = c0\<lparr>TreeRoot := Some t, tree := Some t\<rparr>"
  using assms by (auto simp: NewAssetCommitment_def split: sum.splits)


lemma checkCommon_grouped_None_iff:
  "checkCommon e g (Some gk) a = None \<longleftrightarrow>
     IsEqualGroup (Some gk) (GroupKey a) \<and> sigVerifies e gk a"
  by (auto simp: checkCommon_def sigVerifies_def IsEqualGroup_def split: option.splits)

lemma checkCommon_invalid_sig:
  "IsEqualGroup (Some gk) (GroupKey a) \<Longrightarrow> \<not> sigVerifies e gk a \<Longrightarrow>
     checkCommon e g (Some gk) a = Some ErrAssetGenesisInvalidSig"
  by (auto simp: checkCommon_def sigVerifies_def IsEqualGroup_def split: option.splits)

lemma parseCommonLoop_first_error:
  "(\<forall>b\<in>set pre. checkCommon e g gk b = None) \<Longrightarrow>
   distinct (map (AssetCommitmentKey e) pre) \<Longrightarrow>
   (\<forall>b\<in>set pre. m (AssetCommitmentKey e b) = None) \<Longrightarrow>
   checkCommon e g gk a = Some err \<Longrightarrow>
   parseCommonLoop e g gk (pre @ a # post) v m = Inl err"
proof (induction pre arbitrary: v m)
  case Nil
  then show ?case by simp
next
  case (Cons b pre)
  have "parseCommonLoop e g gk (pre @ a # post)
          (if AssetVersion b > v then AssetVersion b else v)
          (m(AssetCommitmentKey e b \<mapsto> b)) = Inl err"
    using Cons.prems by (intro Cons.IH) (auto simp: image_iff)
  with Cons.prems show ?case
    by (simp add: Let_def)
qed

lemma insertAssets_Inr:
  "insertAssets e xs t = Inr t' \<Longrightarrow> \<forall>a\<in>set xs. Leaf e a \<noteq> None"
  by (induction xs arbitrary: t) (auto simp: Let_def split: option.splits)

lemma insertAssets_total:
  "\<forall>a\<in>set xs. Leaf e a \<noteq> None \<Longrightarrow> \<exists>t'. insertAssets e xs t = Inr t'"
  by (induction xs arbitrary: t) (auto simp: Let_def split: option.splits)

lemma parseCommon_total:
  assumes "xs \<noteq> []"
    and "\<forall>a\<in>set xs. checkCommon e (GenesisID e (Genesis (hd xs))) (GroupKey (hd xs)) a = None"
    and "distinct (map (AssetCommitmentKey e) xs)"
  shows "\<exists>c. parseCommon e xs = Inr c"
proof -
  from assms(1) obtain x rest where xs: "xs = x # rest" by (cases xs) auto
  from parseCommonLoop_total [OF assms(2,3), of Map.empty 0] obtain r where
    "parseCommonLoop e (GenesisID e (Genesis (hd xs))) (GroupKey (hd xs)) xs 0 Map.empty = Inr r"
    by auto
  with xs show ?thesis
    by (cases r) (simp add: parseCommon_def Let_def)
qed

lemma NewAssetCommitment_succeeds:
  assumes "xs \<noteq> []"
    and "\<forall>a\<in>set xs. checkCommon e (GenesisID e (Genesis (hd xs))) (GroupKey (hd xs)) a = None"
    and "distinct (map (AssetCommitmentKey e) xs)"
    and "\<forall>a\<in>set xs. Leaf e a \<noteq> None"
  shows "\<exists>c. NewAssetCommitment e xs = Inr c"
proof -
  from parseCommon_total [OF assms(1-3)] obtain c where "parseCommon e xs = Inr c" by blast
  moreover from insertAssets_total [OF assms(4)] obtain t where
    "insertAssets e xs NewCompactedTree = Inr t" by blast
  ultimately show ?thesis by (simp add: NewAssetCommitment_def)
qed

lemma parseCommon_Inl_NewAssetCommitment:
  "parseCommon e xs = Inl err \<Longrightarrow> NewAssetCommitment e xs = Inl err"
  by (simp add: NewAssetCommitment_def)

lemma parseCommon_loop_Inl:
  assumes "xs \<noteq> []"
    and "parseCommonLoop e (GenesisID e (Genesis (hd xs))) (GroupKey (hd xs)) xs 0 Map.empty =
           Inl err"
  shows "parseCommon e xs = Inl err"
proof -
  from assms(1) obtain x rest where xs: "xs = x # rest" by (cases xs) auto
  with assms(2) show ?thesis
    by (simp add: parseCommon_def Let_def del: parseCommonLoop.simps)
qed


lemma parseCommonLoop_first_duplicate:
  "(\<forall>b\<in>set pre. checkCommon e g gk b = None) \<Longrightarrow>
   distinct (map (AssetCommitmentKey e) pre) \<Longrightarrow>
   (\<forall>b\<in>set pre. m (AssetCommitmentKey e b) = None) \<Longrightarrow>
   checkCommon e g gk a = None \<Longrightarrow>
   m (AssetCommitmentKey e a) \<noteq> None \<or>
     AssetCommitmentKey e a \<in> AssetCommitmentKey e ` set pre \<Longrightarrow>
   parseCommonLoop e g gk (pre @ a # post) v m =
     Inl (ErrAssetDuplicateScriptKey (AssetCommitmentKey e a))"
proof (induction pre arbitrary: v m)
  case Nil
  then show ?case by (simp add: Let_def)
next
  case (Cons b pre)
  let ?m = "m(AssetCommitmentKey e b \<mapsto> b)"
  have "parseCommonLoop e g gk (pre @ a # post)
          (if AssetVersion b > v then AssetVersion b else v) ?m =
        Inl (ErrAssetDuplicateScriptKey (AssetCommitmentKey e a))"
  proof (rule Cons.IH)
    show "\<forall>b\<in>set pre. checkCommon e g gk b = None" using Cons.prems(1) by simp
    show "distinct (map (AssetCommitmentKey e) pre)" using Cons.prems(2) by simp
    show "\<forall>c\<in>set pre. ?m (AssetCommitmentKey e c) = None"
      using Cons.prems(2,3) by (auto simp: image_iff)
    show "checkCommon e g gk a = None" by (rule Cons.prems(4))
    show "?m (AssetCommitmentKey e a) \<noteq> None \<or>
        AssetCommitmentKey e a \<in> AssetCommitmentKey e ` set pre"
      using Cons.prems(5) by auto
  qed
  with Cons.prems(1,3) show ?case
    by (simp add: Let_def)
qed

lemma checkCommon_not_duplicate:
  "checkCommon e g gk a \<noteq> Some (ErrAssetDuplicateScriptKey k)"
  by (auto simp: checkCommon_def split: option.splits if_splits)

lemma parseCommonLoop_duplicate_prefix:
  "parseCommonLoop e g gk xs v m = Inl (ErrAssetDuplicateScriptKey k) \<Longrightarrow>
   \<exists>pre a post. xs = pre @ a # post \<and>
      (\<forall>b\<in>set pre. checkCommon e g gk b = None) \<and> checkCommon e g gk a = None \<and>
      distinct (map (AssetCommitmentKey e) pre) \<and>
      (\<forall>b\<in>set pre. m (AssetCommitmentKey e b) = None) \<and>
      AssetCommitmentKey e a = k \<and>
      (m k \<noteq> None \<or> k \<in> AssetCommitmentKey e ` set pre)"
proof (induction xs arbitrary: v m)
  case Nil
  then show ?case by simp
next
  case (Cons x xs)
  let ?kx = "AssetCommitmentKey e x"
  from Cons.prems checkCommon_not_duplicate [of e g gk x k]
  have cx: "checkCommon e g gk x = None"
    by (cases "checkCommon e g gk x") auto
  show ?case
  proof (cases "m ?kx = None")
    case False
    with Cons.prems cx have "?kx = k" by (simp add: Let_def)
    with False cx have "x # xs = [] @ x # xs \<and>
      (\<forall>b\<in>set []. checkCommon e g gk b = None) \<and> checkCommon e g gk x = None \<and>
      distinct (map (AssetCommitmentKey e) []) \<and>
      (\<forall>b\<in>set []. m (AssetCommitmentKey e b) = None) \<and>
      AssetCommitmentKey e x = k \<and>
      (m k \<noteq> None \<or> k \<in> AssetCommitmentKey e ` set [])"
      by simp
    then show ?thesis by blast
  next
    case True
    let ?m = "m(?kx \<mapsto> x)"
    from Cons.prems cx True have
      "parseCommonLoop e g gk xs (if AssetVersion x > v then AssetVersion x else v) ?m =
        Inl (ErrAssetDuplicateScriptKey k)"
      by (simp add: Let_def)
    from Cons.IH [OF this] obtain pre a post where
      s: "xs = pre @ a # post"
      and p: "\<forall>b\<in>set pre. checkCommon e g gk b = None" "checkCommon e g gk a = None"
      and d: "distinct (map (AssetCommitmentKey e) pre)"
      and f: "\<forall>b\<in>set pre. ?m (AssetCommitmentKey e b) = None"
      and k: "AssetCommitmentKey e a = k"
      and r: "?m k \<noteq> None \<or> k \<in> AssetCommitmentKey e ` set pre"
      by blast
    from f have nx: "\<forall>b\<in>set pre. AssetCommitmentKey e b \<noteq> ?kx"
      by (auto split: if_splits)
    from f nx have f': "\<forall>b\<in>set (x # pre). m (AssetCommitmentKey e b) = None"
      using True by (auto split: if_splits)
    from nx d have d': "distinct (map (AssetCommitmentKey e) (x # pre))"
      by (auto simp: image_iff)
    from r have r': "m k \<noteq> None \<or> k \<in> AssetCommitmentKey e ` set (x # pre)"
      by (auto split: if_splits)
    from s have "x # xs = (x # pre) @ a # post" by simp
    moreover from p cx have "\<forall>b\<in>set (x # pre). checkCommon e g gk b = None" by simp
    ultimately show ?thesis using p(2) d' f' k r' by blast
  qed
qed

lemma insertAssets_Inl: "insertAssets e xs t = Inl err \<Longrightarrow> err = ErrLeafEncode"
  by (induction xs arbitrary: t) (auto simp: Let_def split: option.splits)

lemma NewAssetCommitment_duplicate_loop:
  assumes "NewAssetCommitment e xs = Inl (ErrAssetDuplicateScriptKey k)"
  shows "parseCommonLoop e (GenesisID e (Genesis (hd xs))) (GroupKey (hd xs)) xs 0 Map.empty =
           Inl (ErrAssetDuplicateScriptKey k)"
proof (cases xs)
  case Nil
  with assms show ?thesis by (simp add: NewAssetCommitment_def parseCommon_def)
next
  case (Cons x rest)
  show ?thesis
  proof (cases "parseCommon e xs")
    case (Inl err)
    with assms have "err = ErrAssetDuplicateScriptKey k"
      by (simp add: NewAssetCommitment_def)
    with Inl Cons show ?thesis
      by (simp add: parseCommon_def Let_def del: parseCommonLoop.simps
          split: sum.splits prod.splits)
  next
    case (Inr c0)
    with assms insertAssets_Inl [of e xs NewCompactedTree] show ?thesis
      by (auto simp: NewAssetCommitment_def split: sum.splits)
  qed
qed

subsection \<open>The identifier of a commitment\<close>

text \<open>
  Claim C1: when \<^verbatim>\<open>NewAssetCommitment\<close> accepts a list of assets, the list is not
  empty and the identifier of the commitment (\<^verbatim>\<open>AssetID\<close>, returned by
  \<^verbatim>\<open>TapCommitmentKey\<close>) is, for every asset of the list, the genesis ID of the asset
  when it has no group key, and the SHA-256 of its schnorr-serialised group public key
  when it has one.
\<close>

theorem NewAssetCommitment_AssetID:
  assumes "NewAssetCommitment e assetList = Inr c"
  shows "assetList \<noteq> [] \<and>
         (\<forall>a\<in>set assetList.
            TapCommitmentKey c =
              (case GroupKey a of
                 None \<Rightarrow> GenesisID e (Genesis a)
               | Some gk \<Rightarrow> sha256 e (SerializePubKey e (GroupPubKey gk))))"
proof -
  from NewAssetCommitment_Inr [OF assms] obtain c0 t where
    p: "parseCommon e assetList = Inr c0" and c: "c = c0\<lparr>TreeRoot := Some t, tree := Some t\<rparr>"
    by blast
  have "\<forall>a\<in>set assetList. commonID e a = AssetID c0"
    using parseCommon_Inr(2,4) [OF p] checkCommon_commonID by metis
  with parseCommon_Inr(1) [OF p] c show ?thesis
    by (simp add: TapCommitmentKey_def commonID_def)
qed


theorem NewAssetCommitment_AssetID_witness:
  "(\<exists>c. NewAssetCommitment toyEnv [toyAsset 0 1 100 None, toyAsset 0 2 50 None] = Inr c \<and>
        TapCommitmentKey c = 32 \<and> GenesisID toyEnv (toyGenesis 0) = 32) \<and>
   (\<exists>c. NewAssetCommitment toyEnv
          [toyAsset 0 1 100 (Some (toyGroupKey [9, 0])),
           toyAsset 1 2 50 (Some (toyGroupKey [9, 1]))] = Inr c \<and>
        TapCommitmentKey c = 64 \<and>
        sha256 toyEnv (SerializePubKey toyEnv (GroupPubKey (toyGroupKey [9, 0]))) = 64)"
proof -
  let ?xs = "[toyAsset 0 1 100 None, toyAsset 0 2 50 None]"
  let ?ys = "[toyAsset 0 1 100 (Some (toyGroupKey [9, 0])),
              toyAsset 1 2 50 (Some (toyGroupKey [9, 1]))]"
  have "\<exists>c. NewAssetCommitment toyEnv ?xs = Inr c"
    by (rule NewAssetCommitment_succeeds)
      (simp_all add: toy_defs checkCommon_def IsEqualGroup_def NewLeafNode_def)
  then obtain c where c: "NewAssetCommitment toyEnv ?xs = Inr c" ..
  have "\<exists>d. NewAssetCommitment toyEnv ?ys = Inr d"
    by (rule NewAssetCommitment_succeeds)
      (simp_all add: toy_defs checkCommon_def IsEqualGroup_def NewLeafNode_def)
  then obtain d where d: "NewAssetCommitment toyEnv ?ys = Inr d" ..
  from NewAssetCommitment_AssetID [OF c] have "TapCommitmentKey c = 32"
    by (simp add: toy_defs)
  moreover from NewAssetCommitment_AssetID [OF d] have "TapCommitmentKey d = 64"
    by (simp add: toy_defs)
  ultimately show ?thesis using c d
    by (auto simp: toy_defs)
qed

subsection \<open>The group signature\<close>

text \<open>
  Claim C2, as the code has it. For a list whose first asset carries a group key:
  \<^verbatim>\<open>NewAssetCommitment\<close> succeeds only if the signature of every asset verifies
  under the group public key; and it fails with the invalid-genesis-signature error
  when the first asset of the list to fail a check is in the group and fails the
  signature check (the assets before it pass the checks and have different commitment
  keys). \<^verbatim>\<open>Upsert\<close> of a grouped asset succeeds only if the signature verifies, and
  fails with the invalid-genesis-signature error when the asset passes the type check
  and the identifier check and its signature does not verify.
\<close>

theorem group_signature_checked:
  "(\<forall>gk c. GroupKey (hd assetList) = Some gk \<and> NewAssetCommitment e assetList = Inr c
      \<longrightarrow> (\<forall>a\<in>set assetList. sigVerifies e gk a)) \<and>
   (\<forall>gk pre a post.
      assetList = pre @ a # post \<and> GroupKey (hd assetList) = Some gk \<and>
      (\<forall>b\<in>set pre. IsEqualGroup (Some gk) (GroupKey b) \<and> sigVerifies e gk b) \<and>
      distinct (map (AssetCommitmentKey e) pre) \<and>
      IsEqualGroup (Some gk) (GroupKey a) \<and> \<not> sigVerifies e gk a
      \<longrightarrow> NewAssetCommitment e assetList = Inl ErrAssetGenesisInvalidSig) \<and>
   (\<forall>a gk. GroupKey a = Some gk \<longrightarrow>
      (fst (Upsert e randAsset cm (Some a)) = None
         \<longrightarrow> VerifySignature e (Genesis a) (Sig gk) (GroupPubKey gk)) \<and>
      ((case randAsset of None \<Rightarrow> True | Some ra \<Rightarrow> Type (Genesis ra) = Type (Genesis a)) \<and>
       AssetTapCommitmentKey e a = AssetID cm \<and>
       \<not> VerifySignature e (Genesis a) (Sig gk) (GroupPubKey gk)
         \<longrightarrow> Upsert e randAsset cm (Some a) = (Some ErrAssetGenesisInvalidSig, cm)))"
proof (intro conjI allI impI)
  fix gk c
  assume h: "GroupKey (hd assetList) = Some gk \<and> NewAssetCommitment e assetList = Inr c"
  from NewAssetCommitment_Inr [of e assetList c] h obtain c1 where
    "parseCommon e assetList = Inr c1" by blast
  from parseCommon_Inr(2) [OF this] h
  show "\<forall>a\<in>set assetList. sigVerifies e gk a"
    by (simp add: checkCommon_grouped_None_iff)
next
  fix gk pre a post
  assume h: "assetList = pre @ a # post \<and> GroupKey (hd assetList) = Some gk \<and>
      (\<forall>b\<in>set pre. IsEqualGroup (Some gk) (GroupKey b) \<and> sigVerifies e gk b) \<and>
      distinct (map (AssetCommitmentKey e) pre) \<and>
      IsEqualGroup (Some gk) (GroupKey a) \<and> \<not> sigVerifies e gk a"
  from h have xs: "assetList = pre @ a # post" and gk: "GroupKey (hd assetList) = Some gk"
    by blast+
  have "parseCommonLoop e (GenesisID e (Genesis (hd assetList))) (GroupKey (hd assetList))
          assetList 0 Map.empty = Inl ErrAssetGenesisInvalidSig"
    unfolding gk unfolding xs using h
    by (intro parseCommonLoop_first_error)
      (simp_all add: checkCommon_grouped_None_iff checkCommon_invalid_sig)
  moreover from xs have "assetList \<noteq> []" by simp
  ultimately have "parseCommon e assetList = Inl ErrAssetGenesisInvalidSig"
    by (intro parseCommon_loop_Inl)
  then show "NewAssetCommitment e assetList = Inl ErrAssetGenesisInvalidSig"
    by (rule parseCommon_Inl_NewAssetCommitment)
next
  fix a gk
  assume "GroupKey a = Some gk" and "fst (Upsert e randAsset cm (Some a)) = None"
  then show "VerifySignature e (Genesis a) (Sig gk) (GroupPubKey gk)"
    by (auto simp: Upsert_def Let_def split: option.splits if_splits)
next
  fix a gk
  assume "GroupKey a = Some gk"
    and "(case randAsset of None \<Rightarrow> True | Some ra \<Rightarrow> Type (Genesis ra) = Type (Genesis a)) \<and>
       AssetTapCommitmentKey e a = AssetID cm \<and>
       \<not> VerifySignature e (Genesis a) (Sig gk) (GroupPubKey gk)"
  then show "Upsert e randAsset cm (Some a) = (Some ErrAssetGenesisInvalidSig, cm)"
    by (auto simp: Upsert_def Let_def split: option.splits)
qed


theorem group_signature_checked_witness:
  "(\<exists>c. NewAssetCommitment toyEnv
          [toyAsset 0 1 100 (Some (toyGroupKey [9, 0])),
           toyAsset 1 2 50 (Some (toyGroupKey [9, 1]))] = Inr c \<and>
        sigVerifies toyEnv (toyGroupKey [9, 0]) (toyAsset 1 2 50 (Some (toyGroupKey [9, 1])))) \<and>
   \<not> sigVerifies toyEnv (toyGroupKey [9, 0]) (toyAsset 1 2 50 (Some (toyGroupKey [9, 7]))) \<and>
   NewAssetCommitment toyEnv
     [toyAsset 0 1 100 (Some (toyGroupKey [9, 0])),
      toyAsset 1 2 50 (Some (toyGroupKey [9, 7]))] = Inl ErrAssetGenesisInvalidSig \<and>
   fst (Upsert toyEnv None (toyCommitment 64)
          (Some (toyAsset 0 1 100 (Some (toyGroupKey [9, 0]))))) = None \<and>
   VerifySignature toyEnv (toyGenesis 0) [9, 0] (GroupPubKey (toyGroupKey [9, 0])) \<and>
   Upsert toyEnv None (toyCommitment 64)
     (Some (toyAsset 0 1 100 (Some (toyGroupKey [9, 7])))) =
     (Some ErrAssetGenesisInvalidSig, toyCommitment 64)"
proof -
  let ?g = "toyAsset 0 1 100 (Some (toyGroupKey [9, 0]))"
  let ?h = "toyAsset 1 2 50 (Some (toyGroupKey [9, 1]))"
  let ?b = "toyAsset 1 2 50 (Some (toyGroupKey [9, 7]))"
  let ?u = "toyAsset 0 1 100 (Some (toyGroupKey [9, 7]))"
  note inst = group_signature_checked [where e = toyEnv and randAsset = None
      and cm = "toyCommitment 64"]
  have "\<exists>c. NewAssetCommitment toyEnv [?g, ?h] = Inr c"
    by (rule NewAssetCommitment_succeeds)
      (simp_all add: toy_defs checkCommon_def IsEqualGroup_def NewLeafNode_def)
  then obtain c where c: "NewAssetCommitment toyEnv [?g, ?h] = Inr c" ..
  have gk: "GroupKey (hd [?g, ?h]) = Some (toyGroupKey [9, 0])"
    by (simp add: toy_defs)
  from inst [where assetList = "[?g, ?h]", THEN conjunct1, rule_format,
      where gk = "toyGroupKey [9, 0]" and c = c]
    gk c
  have f1: "sigVerifies toyEnv (toyGroupKey [9, 0]) ?h" by simp
  have nb: "\<not> sigVerifies toyEnv (toyGroupKey [9, 0]) ?b"
    by (simp add: toy_defs sigVerifies_def)
  have "[?g, ?b] = [?g] @ ?b # [] \<and> GroupKey (hd [?g, ?b]) = Some (toyGroupKey [9, 0]) \<and>
      (\<forall>b\<in>set [?g]. IsEqualGroup (Some (toyGroupKey [9, 0])) (GroupKey b) \<and>
         sigVerifies toyEnv (toyGroupKey [9, 0]) b) \<and>
      distinct (map (AssetCommitmentKey toyEnv) [?g]) \<and>
      IsEqualGroup (Some (toyGroupKey [9, 0])) (GroupKey ?b) \<and>
      \<not> sigVerifies toyEnv (toyGroupKey [9, 0]) ?b"
    by (simp add: toy_defs sigVerifies_def IsEqualGroup_def)
  with inst [where assetList = "[?g, ?b]", THEN conjunct2, THEN conjunct1, rule_format,
      where gk = "toyGroupKey [9, 0]" and pre = "[?g]" and a = ?b and post = "[]"]
  have f2: "NewAssetCommitment toyEnv [?g, ?b] = Inl ErrAssetGenesisInvalidSig"
    by blast
  have ok: "fst (Upsert toyEnv None (toyCommitment 64) (Some ?g)) = None"
    by (simp add: Upsert_def toy_defs Let_def NewLeafNode_def)
  have gg: "GroupKey ?g = Some (toyGroupKey [9, 0])"
    by (simp add: toy_defs)
  from inst [where assetList = "[]", THEN conjunct2, THEN conjunct2, rule_format,
      where a = ?g and gk = "toyGroupKey [9, 0]", OF gg] ok
  have f3: "VerifySignature toyEnv (Genesis ?g) (Sig (toyGroupKey [9, 0]))
      (GroupPubKey (toyGroupKey [9, 0]))"
    by blast
  have gu: "GroupKey ?u = Some (toyGroupKey [9, 7])"
    by (simp add: toy_defs)
  have pre: "(case None of None \<Rightarrow> True | Some ra \<Rightarrow> Type (Genesis ra) = Type (Genesis ?u)) \<and>
      AssetTapCommitmentKey toyEnv ?u = AssetID (toyCommitment 64) \<and>
      \<not> VerifySignature toyEnv (Genesis ?u) (Sig (toyGroupKey [9, 7]))
          (GroupPubKey (toyGroupKey [9, 7]))"
    by (simp add: toy_defs)
  from inst [where assetList = "[]", THEN conjunct2, THEN conjunct2, rule_format,
      where a = ?u and gk = "toyGroupKey [9, 7]", OF gu] pre
  have f4: "Upsert toyEnv None (toyCommitment 64) (Some ?u) =
      (Some ErrAssetGenesisInvalidSig, toyCommitment 64)"
    by blast
  from f3 have f3': "VerifySignature toyEnv (toyGenesis 0) [9, 0] (GroupPubKey (toyGroupKey [9, 0]))"
    by (simp add: toy_defs)
  from c f1 nb f2 ok f3' f4 show ?thesis by blast
qed

text \<open>
  The claim as written fails: three assets of one group, the first two with the same
  commitment key and the third with a signature that does not verify, are rejected
  with the duplicate-script-key error, not the invalid-genesis-signature error.
\<close>

theorem group_signature_other_error_first:
  "NewAssetCommitment toyEnv
     [toyAsset 0 1 100 (Some (toyGroupKey [9, 0])),
      toyAsset 0 1 70 (Some (toyGroupKey [9, 0])),
      toyAsset 1 2 50 (Some (toyGroupKey [9, 7]))] = Inl (ErrAssetDuplicateScriptKey 48) \<and>
   GroupKey (hd [toyAsset 0 1 100 (Some (toyGroupKey [9, 0])),
                 toyAsset 0 1 70 (Some (toyGroupKey [9, 0])),
                 toyAsset 1 2 50 (Some (toyGroupKey [9, 7]))]) = Some (toyGroupKey [9, 0]) \<and>
   \<not> sigVerifies toyEnv (toyGroupKey [9, 0]) (toyAsset 1 2 50 (Some (toyGroupKey [9, 7])))"
  by (simp add: NewAssetCommitment_def parseCommon_def checkCommon_def IsEqualGroup_def
      sigVerifies_def toy_defs Let_def)

subsection \<open>Duplicate script keys\<close>

text \<open>
  Claim C5, as the code has it: for every list of assets with two entries that have the
  same \<^verbatim>\<open>AssetCommitmentKey\<close>, \<^verbatim>\<open>NewAssetCommitment\<close> returns an error and no
  commitment. The error is the duplicate-script-key error, with the repeated key,
  exactly when the first asset of the list to fail a check fails the duplicate check:
  the assets before it pass the group-key, genesis and signature checks against the
  first asset and have different commitment keys, and the asset itself passes those
  checks and has the commitment key of an asset before it. What comes after that asset
  is not looked at.
\<close>

theorem duplicate_script_key_rejected:
  "(\<not> distinct (map (AssetCommitmentKey e) assetList)
      \<longrightarrow> (\<exists>err. NewAssetCommitment e assetList = Inl err)) \<and>
   (assetList = pre @ a # post \<and>
    (\<forall>b\<in>set pre.
       checkCommon e (GenesisID e (Genesis (hd assetList))) (GroupKey (hd assetList)) b = None) \<and>
    checkCommon e (GenesisID e (Genesis (hd assetList))) (GroupKey (hd assetList)) a = None \<and>
    distinct (map (AssetCommitmentKey e) pre) \<and>
    AssetCommitmentKey e a \<in> AssetCommitmentKey e ` set pre
      \<longrightarrow> NewAssetCommitment e assetList =
            Inl (ErrAssetDuplicateScriptKey (AssetCommitmentKey e a))) \<and>
   (NewAssetCommitment e assetList = Inl (ErrAssetDuplicateScriptKey k)
      \<longrightarrow> (\<exists>pre' a' post'. assetList = pre' @ a' # post' \<and>
             (\<forall>b\<in>set pre'.
                checkCommon e (GenesisID e (Genesis (hd assetList))) (GroupKey (hd assetList)) b =
                  None) \<and>
             checkCommon e (GenesisID e (Genesis (hd assetList))) (GroupKey (hd assetList)) a' =
               None \<and>
             distinct (map (AssetCommitmentKey e) pre') \<and>
             AssetCommitmentKey e a' = k \<and> k \<in> AssetCommitmentKey e ` set pre'))"
proof (intro conjI impI)
  assume d: "\<not> distinct (map (AssetCommitmentKey e) assetList)"
  show "\<exists>err. NewAssetCommitment e assetList = Inl err"
  proof (cases "NewAssetCommitment e assetList")
    case (Inl err)
    then show ?thesis by blast
  next
    case (Inr c)
    from NewAssetCommitment_Inr [OF this] obtain c1 where
      "parseCommon e assetList = Inr c1" by blast
    from parseCommon_Inr(3) [OF this] d show ?thesis by simp
  qed
next
  let ?g = "GenesisID e (Genesis (hd assetList))"
  let ?gk = "GroupKey (hd assetList)"
  assume h: "assetList = pre @ a # post \<and>
    (\<forall>b\<in>set pre. checkCommon e ?g ?gk b = None) \<and> checkCommon e ?g ?gk a = None \<and>
    distinct (map (AssetCommitmentKey e) pre) \<and>
    AssetCommitmentKey e a \<in> AssetCommitmentKey e ` set pre"
  note xs = h [THEN conjunct1]
  note p = h [THEN conjunct2, THEN conjunct1]
    h [THEN conjunct2, THEN conjunct2, THEN conjunct1]
  note d = h [THEN conjunct2, THEN conjunct2, THEN conjunct2, THEN conjunct1]
  note k = h [THEN conjunct2, THEN conjunct2, THEN conjunct2, THEN conjunct2]
  from p d k have "parseCommonLoop e ?g ?gk (pre @ a # post) 0 Map.empty =
      Inl (ErrAssetDuplicateScriptKey (AssetCommitmentKey e a))"
    by (intro parseCommonLoop_first_duplicate) simp_all
  with xs have "parseCommonLoop e ?g ?gk assetList 0 Map.empty =
      Inl (ErrAssetDuplicateScriptKey (AssetCommitmentKey e a))"
    by simp
  moreover from xs have "assetList \<noteq> []" by simp
  ultimately have "parseCommon e assetList =
      Inl (ErrAssetDuplicateScriptKey (AssetCommitmentKey e a))"
    by (intro parseCommon_loop_Inl)
  then show "NewAssetCommitment e assetList =
      Inl (ErrAssetDuplicateScriptKey (AssetCommitmentKey e a))"
    by (rule parseCommon_Inl_NewAssetCommitment)
next
  let ?g = "GenesisID e (Genesis (hd assetList))"
  let ?gk = "GroupKey (hd assetList)"
  assume "NewAssetCommitment e assetList = Inl (ErrAssetDuplicateScriptKey k)"
  then have "parseCommonLoop e ?g ?gk assetList 0 Map.empty = Inl (ErrAssetDuplicateScriptKey k)"
    by (rule NewAssetCommitment_duplicate_loop)
  from parseCommonLoop_duplicate_prefix [OF this]
  show "\<exists>pre' a' post'. assetList = pre' @ a' # post' \<and>
      (\<forall>b\<in>set pre'. checkCommon e ?g ?gk b = None) \<and> checkCommon e ?g ?gk a' = None \<and>
      distinct (map (AssetCommitmentKey e) pre') \<and>
      AssetCommitmentKey e a' = k \<and> k \<in> AssetCommitmentKey e ` set pre'"
    by auto
qed

theorem duplicate_script_key_rejected_witness:
  "\<not> distinct (map (AssetCommitmentKey toyEnv)
       [toyAsset 0 1 100 None, toyAsset 0 1 50 None, toyAsset 1 2 60 None]) \<and>
   checkCommon toyEnv (GenesisID toyEnv (Genesis (toyAsset 0 1 100 None)))
     (GroupKey (toyAsset 0 1 100 None)) (toyAsset 1 2 60 None) = Some ErrAssetGenesisMismatch \<and>
   AssetCommitmentKey toyEnv (toyAsset 0 1 50 None) = 48 \<and>
   NewAssetCommitment toyEnv [toyAsset 0 1 100 None, toyAsset 0 1 50 None, toyAsset 1 2 60 None] =
     Inl (ErrAssetDuplicateScriptKey 48) \<and>
   (\<exists>pre' a' post'.
      [toyAsset 0 1 100 None, toyAsset 0 1 50 None, toyAsset 1 2 60 None] = pre' @ a' # post' \<and>
      distinct (map (AssetCommitmentKey toyEnv) pre') \<and>
      AssetCommitmentKey toyEnv a' = 48 \<and> 48 \<in> AssetCommitmentKey toyEnv ` set pre')"
proof -
  let ?a1 = "toyAsset 0 1 100 None"
  let ?a2 = "toyAsset 0 1 50 None"
  let ?a3 = "toyAsset 1 2 60 None"
  let ?xs = "[?a1, ?a2, ?a3]"
  note inst = duplicate_script_key_rejected [where e = toyEnv and assetList = ?xs
      and pre = "[?a1]" and a = ?a2 and post = "[?a3]" and k = 48]
  have d: "\<not> distinct (map (AssetCommitmentKey toyEnv) ?xs)"
    by (simp add: toy_defs)
  have m: "checkCommon toyEnv (GenesisID toyEnv (Genesis ?a1)) (GroupKey ?a1) ?a3 =
      Some ErrAssetGenesisMismatch"
    by (simp add: toy_defs checkCommon_def IsEqualGroup_def)
  have k: "AssetCommitmentKey toyEnv ?a2 = 48"
    by (simp add: toy_defs)
  have h: "?xs = [?a1] @ ?a2 # [?a3] \<and>
      (\<forall>b\<in>set [?a1].
         checkCommon toyEnv (GenesisID toyEnv (Genesis (hd ?xs))) (GroupKey (hd ?xs)) b = None) \<and>
      checkCommon toyEnv (GenesisID toyEnv (Genesis (hd ?xs))) (GroupKey (hd ?xs)) ?a2 = None \<and>
      distinct (map (AssetCommitmentKey toyEnv) [?a1]) \<and>
      AssetCommitmentKey toyEnv ?a2 \<in> AssetCommitmentKey toyEnv ` set [?a1]"
    by (simp add: toy_defs checkCommon_def IsEqualGroup_def)
  from inst [THEN conjunct2, THEN conjunct1] h
  have "NewAssetCommitment toyEnv ?xs =
      Inl (ErrAssetDuplicateScriptKey (AssetCommitmentKey toyEnv ?a2))"
    by (rule mp)
  then have n: "NewAssetCommitment toyEnv ?xs = Inl (ErrAssetDuplicateScriptKey 48)"
    unfolding k .
  from inst [THEN conjunct2, THEN conjunct2] n
  have "\<exists>pre' a' post'. ?xs = pre' @ a' # post' \<and>
      (\<forall>b\<in>set pre'.
         checkCommon toyEnv (GenesisID toyEnv (Genesis (hd ?xs))) (GroupKey (hd ?xs)) b = None) \<and>
      checkCommon toyEnv (GenesisID toyEnv (Genesis (hd ?xs))) (GroupKey (hd ?xs)) a' = None \<and>
      distinct (map (AssetCommitmentKey toyEnv) pre') \<and>
      AssetCommitmentKey toyEnv a' = 48 \<and> 48 \<in> AssetCommitmentKey toyEnv ` set pre'"
    by (rule mp)
  then have "\<exists>pre' a' post'. ?xs = pre' @ a' # post' \<and>
      distinct (map (AssetCommitmentKey toyEnv) pre') \<and>
      AssetCommitmentKey toyEnv a' = 48 \<and> 48 \<in> AssetCommitmentKey toyEnv ` set pre'"
    by blast
  with d m k n show ?thesis by blast
qed

text \<open>
  The claim as written fails: when the second asset has another genesis than the
  first, the genesis mismatch is reported, although the second and third entries, two
  different assets, have the same commitment key.
\<close>

theorem duplicate_script_key_other_error_first:
  "NewAssetCommitment toyEnv [toyAsset 0 1 100 None, toyAsset 1 2 50 None, toyAsset 1 2 60 None] =
     Inl ErrAssetGenesisMismatch \<and>
   AssetCommitmentKey toyEnv (toyAsset 1 2 50 None) =
     AssetCommitmentKey toyEnv (toyAsset 1 2 60 None) \<and>
   toyAsset 1 2 50 None \<noteq> toyAsset 1 2 60 None"
  by (simp add: NewAssetCommitment_def parseCommon_def checkCommon_def IsEqualGroup_def
      toy_defs Let_def)

subsection \<open>A failed \<^verbatim>\<open>Upsert\<close>\<close>

text \<open>
  Claim C9: if \<^verbatim>\<open>Upsert\<close> returns a validation error (nil asset, asset-type
  mismatch, genesis mismatch, group-key mismatch or invalid genesis signature), the
  commitment is unchanged: its tree root and its asset map, and every other field, are
  what they were before the call.
\<close>

theorem Upsert_validation_error_unchanged:
  assumes "Upsert e randAsset c asset = (Some err, c')"
    and "err \<in> {ErrNoAssets, ErrAssetTypeMismatch, ErrAssetGenesisMismatch,
                ErrAssetGroupKeyMismatch, ErrAssetGenesisInvalidSig}"
  shows "c' = c"
  using assms
  by (auto simp: Upsert_def Let_def split: option.splits if_splits)


theorem Upsert_validation_error_unchanged_witness:
  "\<exists>err c'. Upsert toyEnv None (toyCommitment 99) (Some (toyAsset 0 1 100 None)) = (Some err, c') \<and>
      err \<in> {ErrNoAssets, ErrAssetTypeMismatch, ErrAssetGenesisMismatch,
              ErrAssetGroupKeyMismatch, ErrAssetGenesisInvalidSig} \<and>
      c' = toyCommitment 99 \<and> TreeRoot c' = Some NewCompactedTree"
proof -
  obtain r c' where u: "Upsert toyEnv None (toyCommitment 99) (Some (toyAsset 0 1 100 None)) = (r, c')"
    by (cases "Upsert toyEnv None (toyCommitment 99) (Some (toyAsset 0 1 100 None))")
  then have r: "r = Some ErrAssetGenesisMismatch"
    by (simp add: Upsert_def toy_defs Let_def)
  have m: "ErrAssetGenesisMismatch \<in> {ErrNoAssets, ErrAssetTypeMismatch, ErrAssetGenesisMismatch,
      ErrAssetGroupKeyMismatch, ErrAssetGenesisInvalidSig}"
    by simp
  from Upsert_validation_error_unchanged [OF u [unfolded r] m] have "c' = toyCommitment 99" .
  with u r m show ?thesis
    by (simp add: toyCommitment_def)
qed

subsection \<open>The leaf of the outer tree\<close>

lemma length_bytes32: "length (bytes32 h) = 32"
  by (simp add: bytes32_def)

lemma length_be64: "length (be64 s) = 8"
  by (simp add: be64_def)


lemma be64_bytes:
  "be64 s = [ucast (drop_bit 56 s), ucast (drop_bit 48 s), ucast (drop_bit 40 s),
             ucast (drop_bit 32 s), ucast (drop_bit 24 s), ucast (drop_bit 16 s),
             ucast (drop_bit 8 s), ucast s]"
  by (simp add: be64_def upt_rec)

text \<open>
  Claim C3: every commitment that \<^verbatim>\<open>NewAssetCommitment\<close> returns has a tree root,
  and for every asset commitment with a tree root, \<^verbatim>\<open>TapCommitmentLeaf\<close> returns a
  leaf whose payload is the one byte of the commitment version, then the 32 bytes of
  the hash that \<^verbatim>\<open>Root\<close> returns, then the 8 bytes, most significant first, of the
  node sum of the tree root; the sum of the leaf is that node sum.
\<close>

theorem TapCommitmentLeaf_payload:
  "(NewAssetCommitment e assetList = Inr c \<longrightarrow> TreeRoot c \<noteq> None) \<and>
   (TreeRoot c = Some r \<longrightarrow>
      (\<exists>root leaf. Root e c = Some root \<and> TapCommitmentLeaf e c = Some leaf \<and>
         LeafValue leaf = [Version c] @ bytes32 root @ be64 (BranchNodeSum r) \<and>
         length (bytes32 root) = 32 \<and>
         be64 (BranchNodeSum r) =
           map (\<lambda>i. ucast (drop_bit (8 * (7 - i)) (BranchNodeSum r))) [0..<8] \<and>
         length (LeafValue leaf) = 41 \<and>
         LeafSum leaf = BranchNodeSum r))"
proof (intro conjI impI)
  assume "NewAssetCommitment e assetList = Inr c"
  from NewAssetCommitment_Inr [OF this] show "TreeRoot c \<noteq> None"
    by auto
next
  assume "TreeRoot c = Some r"
  then show "\<exists>root leaf. Root e c = Some root \<and> TapCommitmentLeaf e c = Some leaf \<and>
         LeafValue leaf = [Version c] @ bytes32 root @ be64 (BranchNodeSum r) \<and>
         length (bytes32 root) = 32 \<and>
         be64 (BranchNodeSum r) =
           map (\<lambda>i. ucast (drop_bit (8 * (7 - i)) (BranchNodeSum r))) [0..<8] \<and>
         length (LeafValue leaf) = 41 \<and>
         LeafSum leaf = BranchNodeSum r"
    by (simp add: TapCommitmentLeaf_def Root_def NewLeafNode_def Let_def length_bytes32
        length_be64 be64_def)
qed

theorem TapCommitmentLeaf_payload_witness:
  "(\<exists>root leaf.
      Root toyEnv ((toyCommitment 32)
        \<lparr>TreeRoot := Some \<lparr>Left = CompactedLeaf 48 (NewLeafNode [0, 1] 100),
                           Right = CompactedLeaf 49 (NewLeafNode [0, 2] 3)\<rparr>\<rparr>) = Some root \<and>
      TapCommitmentLeaf toyEnv ((toyCommitment 32)
        \<lparr>TreeRoot := Some \<lparr>Left = CompactedLeaf 48 (NewLeafNode [0, 1] 100),
                           Right = CompactedLeaf 49 (NewLeafNode [0, 2] 3)\<rparr>\<rparr>) = Some leaf \<and>
      LeafValue leaf = [0] @ bytes32 root @ [0, 0, 0, 0, 0, 0, 0, 103] \<and>
      LeafSum leaf = 103) \<and>
   (\<exists>c. NewAssetCommitment toyEnv [toyAsset 0 1 100 None, toyAsset 0 2 50 None] = Inr c \<and>
        TreeRoot c \<noteq> None)"
proof -
  let ?r = "\<lparr>Left = CompactedLeaf 48 (NewLeafNode [0, 1] 100),
             Right = CompactedLeaf 49 (NewLeafNode [0, 2] 3)\<rparr>"
  let ?c = "(toyCommitment 32)\<lparr>TreeRoot := Some ?r\<rparr>"
  let ?xs = "[toyAsset 0 1 100 None, toyAsset 0 2 50 None]"
  have t: "TreeRoot ?c = Some ?r" by simp
  have s: "BranchNodeSum ?r = 103" by (simp add: BranchNodeSum_def NewLeafNode_def)
  have v: "Version ?c = 0" by (simp add: toyCommitment_def)
  have b: "be64 (103 :: u64) = [0, 0, 0, 0, 0, 0, 0, 103]"
    by (simp add: be64_bytes drop_bit_eq_div)
  have "\<exists>d. NewAssetCommitment toyEnv ?xs = Inr d"
    by (rule NewAssetCommitment_succeeds)
      (simp_all add: toy_defs checkCommon_def IsEqualGroup_def NewLeafNode_def)
  then obtain d where d: "NewAssetCommitment toyEnv ?xs = Inr d" ..
  from TapCommitmentLeaf_payload [of toyEnv ?xs d] d have "TreeRoot d \<noteq> None"
    by blast
  moreover from TapCommitmentLeaf_payload [where e = toyEnv and c = ?c and r = ?r] t
  have "\<exists>root leaf. Root toyEnv ?c = Some root \<and> TapCommitmentLeaf toyEnv ?c = Some leaf \<and>
      LeafValue leaf = [0] @ bytes32 root @ [0, 0, 0, 0, 0, 0, 0, 103] \<and> LeafSum leaf = 103"
    unfolding s v b by blast
  ultimately show ?thesis using d by blast
qed

section \<open>Properties of the tree: insertion order\<close>

lemma sharePrefix_0: "sharePrefix 0 k k' \<Longrightarrow> k = k'"
  by (rule bit_word_eqI) (simp add: sharePrefix_def bitIndex_def)

lemma sharePrefix_sym: "sharePrefix n k k' \<Longrightarrow> sharePrefix n k' k"
  by (simp add: sharePrefix_def)

lemma sharePrefix_step:
  assumes "sharePrefix (Suc n) k k'" and "bitIndex (255 - n) k = bitIndex (255 - n) k'"
  shows "sharePrefix n k k'"
  unfolding sharePrefix_def
proof (intro allI impI)
  fix i assume i: "i < 256 - n"
  show "bitIndex i k = bitIndex i k'"
  proof (cases "i = 255 - n")
    case True
    with assms(2) show ?thesis by simp
  next
    case False
    with i have "i < 256 - Suc n" by arith
    with assms(1) show ?thesis by (simp add: sharePrefix_def)
  qed
qed

lemma merge_comm:
  "sharePrefix n k1 k2 \<Longrightarrow> k1 \<noteq> k2 \<Longrightarrow> merge n k1 l1 k2 l2 = merge n k2 l2 k1 l1"
proof (induction n)
  case 0
  then show ?case using sharePrefix_0 by blast
next
  case (Suc n)
  then show ?case
    by (auto dest: sharePrefix_step)
qed

lemma insertAt_same_leaf: "insertAt n k l (CompactedLeaf k l') = CompactedLeaf k l"
  by (cases n) simp_all

lemma insertAt_merge_same:
  "insertAt n k1 l (merge n k1 l1 k2 l2) = merge n k1 l k2 l2"
  by (induction n) (auto simp: insertAt_same_leaf)

lemma insertAt_leaf_other:
  "sharePrefix n k1 k2 \<Longrightarrow> k1 \<noteq> k2 \<Longrightarrow>
     insertAt n k1 l1 (CompactedLeaf k2 l2) = merge n k1 l1 k2 l2"
  using sharePrefix_0 by (cases n) auto

lemma insertAt_empty: "insertAt n k l EmptyNode = CompactedLeaf k l"
  by (cases n) simp_all

lemma insertAt_merge_three:
  "sharePrefix n k1 k2 \<Longrightarrow> sharePrefix n k1 k3 \<Longrightarrow> sharePrefix n k2 k3 \<Longrightarrow>
   k1 \<noteq> k2 \<Longrightarrow> k1 \<noteq> k3 \<Longrightarrow> k2 \<noteq> k3 \<Longrightarrow>
   insertAt n k1 l1 (merge n k2 l2 k3 l3) = insertAt n k2 l2 (merge n k1 l1 k3 l3)"
proof (induction n)
  case 0
  then show ?case using sharePrefix_0 by blast
next
  case (Suc n)
  let ?b = "\<lambda>k. bitIndex (255 - n) k"
  show ?case
  proof (cases "?b k1 = ?b k2")
    case eq12: True
    show ?thesis
    proof (cases "?b k1 = ?b k3")
      case True
      with eq12 Suc.prems have "sharePrefix n k1 k2" "sharePrefix n k1 k3" "sharePrefix n k2 k3"
        by (auto intro: sharePrefix_step)
      from Suc.IH [OF this Suc.prems(4-6)] eq12 True show ?thesis by simp
    next
      case False
      with eq12 Suc.prems have "sharePrefix n k1 k2" by (auto intro: sharePrefix_step)
      with eq12 False Suc.prems show ?thesis
        by (auto simp: insertAt_leaf_other insertAt_empty merge_comm sharePrefix_sym)
    qed
  next
    case ne12: False
    show ?thesis
    proof (cases "?b k1 = ?b k3")
      case True
      with Suc.prems have "sharePrefix n k1 k3" by (auto intro: sharePrefix_step)
      with ne12 True Suc.prems show ?thesis
        by (auto simp: insertAt_leaf_other insertAt_empty merge_comm sharePrefix_sym)
    next
      case False
      with ne12 have eq23: "?b k2 = ?b k3" by auto
      with Suc.prems have "sharePrefix n k2 k3" by (auto intro: sharePrefix_step)
      with ne12 False eq23 Suc.prems show ?thesis
        by (auto simp: insertAt_leaf_other insertAt_empty merge_comm sharePrefix_sym)
    qed
  qed
qed

lemma insertAt_comm:
  "fits n k1 t \<Longrightarrow> fits n k2 t \<Longrightarrow> sharePrefix n k1 k2 \<Longrightarrow> k1 \<noteq> k2 \<Longrightarrow>
     insertAt n k1 l1 (insertAt n k2 l2 t) = insertAt n k2 l2 (insertAt n k1 l1 t)"
proof (induction n arbitrary: t)
  case 0
  then show ?case using sharePrefix_0 by blast
next
  case (Suc n)
  show ?case
  proof (cases t)
    case EmptyNode
    with Suc.prems show ?thesis
      using merge_comm [of "Suc n" k1 k2 l1 l2]
      by (simp del: merge.simps)
  next
    case (CompactedLeaf k3 l3)
    with Suc.prems have p13: "sharePrefix (Suc n) k1 k3" and p23: "sharePrefix (Suc n) k2 k3"
      by simp_all
    show ?thesis
    proof (cases "k3 = k1")
      case True
      with Suc.prems CompactedLeaf show ?thesis
        using insertAt_merge_same [of "Suc n" k1 l1 l3 k2 l2]
          merge_comm [of "Suc n" k1 k2]
        by (simp del: merge.simps insertAt.simps add: insertAt.simps(3))
    next
      case ne31: False
      show ?thesis
      proof (cases "k3 = k2")
        case True
        with Suc.prems CompactedLeaf ne31 show ?thesis
          using insertAt_merge_same [of "Suc n" k2 l2 l3 k1 l1]
            merge_comm [of "Suc n" k1 k2]
          by (simp del: merge.simps insertAt.simps add: insertAt.simps(3))
      next
        case False
        with ne31 Suc.prems p13 p23 CompactedLeaf show ?thesis
          using insertAt_merge_three [of "Suc n" k1 k2 k3 l1 l2 l3]
          by (simp del: merge.simps insertAt.simps add: insertAt.simps(3))
      qed
    qed
  next
    case (Branch lt rt)
    show ?thesis
    proof (cases "bitIndex (255 - n) k1 = bitIndex (255 - n) k2")
      case True
      with Suc.prems have "sharePrefix n k1 k2" by (auto intro: sharePrefix_step)
      with True Suc.prems Branch Suc.IH [of rt] Suc.IH [of lt] show ?thesis
        by (auto split: if_splits)
    next
      case False
      with Branch show ?thesis by auto
    qed
  qed
qed

lemma fits_merge:
  "sharePrefix n k k1 \<Longrightarrow> sharePrefix n k k2 \<Longrightarrow> fits n k (merge n k1 l1 k2 l2)"
proof (induction n)
  case 0
  then show ?case by simp
next
  case (Suc n)
  then show ?case
    by (auto intro: sharePrefix_step)
qed

lemma fits_insertAt:
  "fits n k t \<Longrightarrow> sharePrefix n k k0 \<Longrightarrow> fits n k (insertAt n k0 l t)"
proof (induction n arbitrary: t)
  case 0
  then show ?case by simp
next
  case (Suc n)
  show ?case
  proof (cases t)
    case EmptyNode
    with Suc.prems show ?thesis by simp
  next
    case (CompactedLeaf k3 l3)
    with Suc.prems show ?thesis
      using fits_merge [of "Suc n" k k0 k3 l l3]
      by (simp del: merge.simps)
  next
    case (Branch lt rt)
    with Suc.prems Suc.IH [of lt] Suc.IH [of rt] show ?thesis
      by (auto intro: sharePrefix_step split: if_splits)
  qed
qed

lemma sharePrefix_255: "sharePrefix 255 k k' \<longleftrightarrow> bitIndex 0 k = bitIndex 0 k'"
  by (simp add: sharePrefix_def)

lemma rootFits_NewCompactedTree: "rootFits NewCompactedTree"
  by (simp add: rootFits_def NewCompactedTree_def)

lemma rootFits_Insert: "rootFits t \<Longrightarrow> rootFits (Insert t k l)"
  unfolding rootFits_def Insert_def
  by (auto simp: fits_insertAt sharePrefix_255)

lemma Insert_comm:
  assumes "rootFits t" and "k1 \<noteq> k2"
  shows "Insert (Insert t k2 l2) k1 l1 = Insert (Insert t k1 l1) k2 l2"
proof (cases "bitIndex 0 k1 = bitIndex 0 k2")
  case True
  then have "sharePrefix 255 k1 k2" by (simp add: sharePrefix_255)
  moreover from assms(1) have
    "if bitIndex 0 k1 then fits 255 k1 (Right t) else fits 255 k1 (Left t)"
    "if bitIndex 0 k2 then fits 255 k2 (Right t) else fits 255 k2 (Left t)"
    by (simp_all add: rootFits_def)
  ultimately show ?thesis
    using True assms(2) insertAt_comm [of 255 k1 "Right t" k2 l1 l2]
      insertAt_comm [of 255 k1 "Left t" k2 l1 l2]
    by (auto simp: Insert_def split: if_splits)
next
  case False
  then show ?thesis
    by (auto simp: Insert_def)
qed

lemma insertAssets_fold:
  "\<forall>a\<in>set xs. Leaf e a \<noteq> None \<Longrightarrow> insertAssets e xs t = Inr (fold (insertAsset e) xs t)"
  by (induction xs arbitrary: t) (auto simp: insertAsset_def Let_def)

lemma fold_insertAsset_permute:
  assumes "mset ys = mset xs" and "distinct (map (AssetCommitmentKey e) xs)"
  shows "fold (insertAsset e) ys NewCompactedTree = fold (insertAsset e) xs NewCompactedTree"
proof (rule fold_permuted_eq [where P = rootFits, symmetric])
  show "mset xs = mset ys" using assms(1) by simp
  show "rootFits NewCompactedTree" by (rule rootFits_NewCompactedTree)
  show "rootFits (insertAsset e x z)" if "rootFits z" for x z
    using that by (simp add: insertAsset_def rootFits_Insert)
  show "insertAsset e x (insertAsset e y z) = insertAsset e y (insertAsset e x z)"
    if "x \<in> set xs" "y \<in> set xs" "rootFits z" for x y z
  proof (cases "x = y")
    case True
    then show ?thesis by simp
  next
    case False
    with that(1,2) assms(2) have "AssetCommitmentKey e x \<noteq> AssetCommitmentKey e y"
      by (auto simp: distinct_map inj_on_def)
    with that(3) show ?thesis
      by (simp add: insertAsset_def Insert_comm)
  qed
qed

lemma checkCommon_rebase:
  assumes "checkCommon e (GenesisID e (Genesis x)) (GroupKey x) y = None"
    and "checkCommon e (GenesisID e (Genesis x)) (GroupKey x) a = None"
  shows "checkCommon e (GenesisID e (Genesis y)) (GroupKey y) a = None"
  using assms by (auto simp: checkCommon_None_iff split: option.splits)


text \<open>
  Claim C4: when \<^verbatim>\<open>NewAssetCommitment\<close> accepts a list of assets, it accepts every
  permutation of the list, and the two commitments have the same tree root and the
  same \<^verbatim>\<open>Root\<close> hash.
\<close>

theorem NewAssetCommitment_permutation:
  assumes "NewAssetCommitment e xs = Inr c" and "mset ys = mset xs"
  shows "\<exists>c'. NewAssetCommitment e ys = Inr c' \<and> TreeRoot c' = TreeRoot c \<and>
           TreeRoot c \<noteq> None \<and> Root e c' = Root e c \<and> Root e c \<noteq> None"
proof -
  from NewAssetCommitment_Inr [OF assms(1)] obtain c0 t where
    p: "parseCommon e xs = Inr c0" and i: "insertAssets e xs NewCompactedTree = Inr t"
    and c: "c = c0\<lparr>TreeRoot := Some t, tree := Some t\<rparr>"
    by blast
  note ok = parseCommon_Inr [OF p]
  from assms(2) have set: "set ys = set xs" by (rule mset_eq_setD)
  from ok(1) set have ne: "ys \<noteq> []" by auto
  then have "hd ys \<in> set ys" by simp
  with set have hd: "hd ys \<in> set xs" by simp
  from ok(2) hd have hd_ok:
    "checkCommon e (GenesisID e (Genesis (hd xs))) (GroupKey (hd xs)) (hd ys) = None"
    by (rule bspec)
  from assms(2) have "mset (map (AssetCommitmentKey e) ys) = mset (map (AssetCommitmentKey e) xs)"
    by simp
  then have "distinct (map (AssetCommitmentKey e) ys) = distinct (map (AssetCommitmentKey e) xs)"
    by (rule mset_eq_imp_distinct_iff)
  with ok(3) have dist: "distinct (map (AssetCommitmentKey e) ys)" by simp
  have chk: "\<forall>a\<in>set ys.
      checkCommon e (GenesisID e (Genesis (hd ys))) (GroupKey (hd ys)) a = None"
  proof
    fix a assume "a \<in> set ys"
    with set have "a \<in> set xs" by simp
    with ok(2) have "checkCommon e (GenesisID e (Genesis (hd xs))) (GroupKey (hd xs)) a = None"
      by (rule bspec)
    with hd_ok show "checkCommon e (GenesisID e (Genesis (hd ys))) (GroupKey (hd ys)) a = None"
      by (rule checkCommon_rebase)
  qed
  from insertAssets_Inr [OF i] have leaf: "\<forall>a\<in>set xs. Leaf e a \<noteq> None" .
  with set have leaf': "\<forall>a\<in>set ys. Leaf e a \<noteq> None" by simp
  from NewAssetCommitment_succeeds [OF ne chk dist leaf'] obtain c' where
    n': "NewAssetCommitment e ys = Inr c'" ..
  from NewAssetCommitment_Inr [OF n'] obtain c0' t' where
    p': "parseCommon e ys = Inr c0'" and i': "insertAssets e ys NewCompactedTree = Inr t'"
    and c': "c' = c0'\<lparr>TreeRoot := Some t', tree := Some t'\<rparr>"
    by blast
  from i insertAssets_fold [OF leaf] have t: "t = fold (insertAsset e) xs NewCompactedTree"
    by simp
  from i' insertAssets_fold [OF leaf'] have "t' = fold (insertAsset e) ys NewCompactedTree"
    by simp
  with t fold_insertAsset_permute [OF assms(2) ok(3)] have tt: "t' = t"
    by simp
  have "commonID e (hd ys) = commonID e (hd xs)"
    using hd_ok by (rule checkCommon_commonID)
  with parseCommon_Inr(4) [OF p'] ok(4) have id: "AssetID c0' = AssetID c0"
    by simp
  from c have r: "TreeRoot c = Some t" and a: "AssetID c = AssetID c0"
    by simp_all
  from c' tt have r': "TreeRoot c' = Some t" and a': "AssetID c' = AssetID c0'"
    by simp_all
  from r r' a a' id have "Root e c' = Root e c" and "Root e c \<noteq> None"
    by (simp_all add: Root_def Let_def)
  with n' r r' show ?thesis by simp
qed

theorem NewAssetCommitment_permutation_witness:
  "mset [toyAsset 0 1 100 None, toyAsset 0 3 7 None, toyAsset 0 2 50 None] =
     mset [toyAsset 0 1 100 None, toyAsset 0 2 50 None, toyAsset 0 3 7 None] \<and>
   (\<exists>c c'. NewAssetCommitment toyEnv
              [toyAsset 0 1 100 None, toyAsset 0 2 50 None, toyAsset 0 3 7 None] = Inr c \<and>
          NewAssetCommitment toyEnv
              [toyAsset 0 1 100 None, toyAsset 0 3 7 None, toyAsset 0 2 50 None] = Inr c' \<and>
          TreeRoot c' = TreeRoot c \<and> TreeRoot c \<noteq> None \<and>
          Root toyEnv c' = Root toyEnv c \<and> Root toyEnv c \<noteq> None)"
proof -
  let ?xs = "[toyAsset 0 1 100 None, toyAsset 0 2 50 None, toyAsset 0 3 7 None]"
  let ?ys = "[toyAsset 0 1 100 None, toyAsset 0 3 7 None, toyAsset 0 2 50 None]"
  have "\<exists>c. NewAssetCommitment toyEnv ?xs = Inr c"
    by (rule NewAssetCommitment_succeeds)
      (simp_all add: toy_defs checkCommon_def IsEqualGroup_def NewLeafNode_def)
  then obtain c where c: "NewAssetCommitment toyEnv ?xs = Inr c" ..
  have m: "mset ?ys = mset ?xs" by (simp add: add.commute)
  from NewAssetCommitment_permutation [OF c m] m c show ?thesis
    by blast
qed

section \<open>Properties of the coin selection\<close>

lemma totalAmount_snoc: "totalAmount (cs @ [c]) = totalAmount cs + commitmentAmount c"
  by (simp add: totalAmount_def)

lemma takePrefix_spec:
  assumes "\<forall>m<length sel. totalAmount (take m sel) < mn"
  shows "(totalAmount (sel @ rest) < mn \<longrightarrow>
            takePrefix mn (totalAmount sel) sel rest = Inl ErrMatchingAssetsNotFound) \<and>
         (mn \<le> totalAmount (sel @ rest) \<longrightarrow>
            (\<exists>n. n \<le> length (sel @ rest) \<and>
                 takePrefix mn (totalAmount sel) sel rest = Inr (take n (sel @ rest)) \<and>
                 mn \<le> totalAmount (take n (sel @ rest)) \<and>
                 (\<forall>m<n. totalAmount (take m (sel @ rest)) < mn)))"
  using assms
proof (induction rest arbitrary: sel)
  case Nil
  show ?case
  proof (cases "mn \<le> totalAmount sel")
    case True
    with Nil show ?thesis
      by (auto simp: totalAmount_def intro!: exI [of _ "length sel"])
  next
    case False
    then show ?thesis by simp
  qed
next
  case (Cons c rest)
  show ?case
  proof (cases "mn \<le> totalAmount sel")
    case True
    with Cons.prems show ?thesis
      by (auto simp: totalAmount_def intro!: exI [of _ "length sel"])
  next
    case False
    have "\<forall>m<length (sel @ [c]). totalAmount (take m (sel @ [c])) < mn"
    proof (intro allI impI)
      fix m assume "m < length (sel @ [c])"
      then consider "m < length sel" | "m = length sel" by force
      then show "totalAmount (take m (sel @ [c])) < mn"
      proof cases
        case 1
        with Cons.prems show ?thesis by simp
      next
        case 2
        with False show ?thesis by simp
      qed
    qed
    from Cons.IH [OF this] False show ?thesis
      by (simp add: totalAmount_snoc)
  qed
qed

lemma sortDescending_sorted:
  "sorted_wrt (\<lambda>a b. commitmentAmount b \<le> commitmentAmount a) (sortDescending cs)"
proof -
  have "sorted (map commitmentAmount (sort_key commitmentAmount cs))"
    by (rule sorted_sort_key)
  then have "sorted_wrt (\<lambda>a b. commitmentAmount a \<le> commitmentAmount b)
      (sort_key commitmentAmount cs)"
    by (simp add: sorted_map)
  then show ?thesis
    by (simp add: sortDescending_def sorted_wrt_rev)
qed

lemma sortDescending_mset: "mset (sortDescending cs) = mset cs"
  by (simp add: sortDescending_def)

lemma totalAmount_sortDescending: "totalAmount (sortDescending cs) = totalAmount cs"
proof -
  have "mset (map commitmentAmount (sortDescending cs)) = mset (map commitmentAmount cs)"
    by (simp add: sortDescending_mset)
  then show ?thesis
    unfolding totalAmount_def by (metis sum_mset_sum_list)
qed


text \<open>
  Claim C6: with strategy \<^verbatim>\<open>PreferMaxAmount\<close> the selection works on the eligible
  commitments in descending order of amount (a sorted permutation of them). When their
  total amount is below the minimum, it fails with the \<^verbatim>\<open>MatchingAssetsNotFound\<close>
  error; otherwise it returns the first prefix whose cumulative amount is at least the
  minimum: every shorter prefix stays below the minimum.
\<close>

theorem SelectForAmount_PreferMaxAmount:
  "sorted_wrt (\<lambda>a b. commitmentAmount b \<le> commitmentAmount a) (sortDescending eligible) \<and>
   mset (sortDescending eligible) = mset eligible \<and>
   (totalAmount eligible < unat minTotalAmount \<longrightarrow>
      SelectForAmount minTotalAmount eligible PreferMaxAmount = Inl ErrMatchingAssetsNotFound) \<and>
   (unat minTotalAmount \<le> totalAmount eligible \<longrightarrow>
      (\<exists>n. n \<le> length eligible \<and>
           SelectForAmount minTotalAmount eligible PreferMaxAmount =
             Inr (take n (sortDescending eligible)) \<and>
           unat minTotalAmount \<le> totalAmount (take n (sortDescending eligible)) \<and>
           (\<forall>m<n. totalAmount (take m (sortDescending eligible)) < unat minTotalAmount)))"
proof -
  have len: "length (sortDescending eligible) = length eligible"
    by (simp add: sortDescending_def)
  have nil: "totalAmount [] = 0"
    by (simp add: totalAmount_def)
  from takePrefix_spec [of "[]" "unat minTotalAmount" "sortDescending eligible"]
  show ?thesis
    by (simp add: SelectForAmount_def sortDescending_sorted sortDescending_mset
        totalAmount_sortDescending len nil)
qed

theorem SelectForAmount_PreferMaxAmount_witness:
  "totalAmount [toyAnchored 5, toyAnchored 20, toyAnchored 10] < unat (40 :: u64) \<and>
   SelectForAmount 40 [toyAnchored 5, toyAnchored 20, toyAnchored 10] PreferMaxAmount =
     Inl ErrMatchingAssetsNotFound \<and>
   unat (25 :: u64) \<le> totalAmount [toyAnchored 5, toyAnchored 20, toyAnchored 10] \<and>
   sortDescending [toyAnchored 5, toyAnchored 20, toyAnchored 10] =
     [toyAnchored 20, toyAnchored 10, toyAnchored 5] \<and>
   (\<exists>n. SelectForAmount 25 [toyAnchored 5, toyAnchored 20, toyAnchored 10] PreferMaxAmount =
           Inr (take n [toyAnchored 20, toyAnchored 10, toyAnchored 5]) \<and>
        25 \<le> totalAmount (take n [toyAnchored 20, toyAnchored 10, toyAnchored 5]))"
proof -
  let ?cs = "[toyAnchored 5, toyAnchored 20, toyAnchored 10]"
  have lo: "totalAmount ?cs < unat (40 :: u64)"
    by (simp add: totalAmount_def commitmentAmount_def toy_defs)
  have hi: "unat (25 :: u64) \<le> totalAmount ?cs"
    by (simp add: totalAmount_def commitmentAmount_def toy_defs)
  have srt: "sortDescending ?cs = [toyAnchored 20, toyAnchored 10, toyAnchored 5]"
    by (simp add: sortDescending_def commitmentAmount_def toy_defs)
  from SelectForAmount_PreferMaxAmount [of ?cs 40] lo
  have f1: "SelectForAmount 40 ?cs PreferMaxAmount = Inl ErrMatchingAssetsNotFound"
    by blast
  from SelectForAmount_PreferMaxAmount [of ?cs 25] hi
  obtain n where "SelectForAmount 25 ?cs PreferMaxAmount = Inr (take n (sortDescending ?cs))"
    and "unat (25 :: u64) \<le> totalAmount (take n (sortDescending ?cs))"
    by blast
  then have "SelectForAmount 25 ?cs PreferMaxAmount =
        Inr (take n [toyAnchored 20, toyAnchored 10, toyAnchored 5]) \<and>
      25 \<le> totalAmount (take n [toyAnchored 20, toyAnchored 10, toyAnchored 5])"
    unfolding srt by simp
  with lo hi srt f1 show ?thesis by blast
qed

section \<open>Properties of the batch states\<close>

lemma CancelBatch_afterBroadcast:
  "afterBroadcast (BatchState b) \<Longrightarrow>
     CancelBatch b = ((Some (BatchKey b), Some ErrBatchNotCancellable), b)"
  by (auto simp: afterBroadcast_def CancelBatch_def)

lemma afterBroadcast_nextState: "afterBroadcast s \<Longrightarrow> afterBroadcast (nextState s)"
  by (auto simp: afterBroadcast_def)

lemma fold_applyEvent_afterBroadcast:
  "afterBroadcast (BatchState b) \<Longrightarrow>
     fold applyEvent evs b =
       b\<lparr>BatchState := (nextState ^^ length (filter (\<lambda>ev. ev = CaretakerStep) evs)) (BatchState b)\<rparr>"
proof (induction evs arbitrary: b)
  case Nil
  then show ?case by simp
next
  case (Cons ev evs)
  show ?case
  proof (cases ev)
    case CancelRequest
    with Cons show ?thesis
      by (simp add: CancelBatch_afterBroadcast)
  next
    case CaretakerStep
    with Cons.prems have "afterBroadcast (BatchState (applyEvent ev b))"
      by (simp add: afterBroadcast_nextState)
    from Cons.IH [OF this] CaretakerStep show ?thesis
      by (simp add: funpow_swap1)
  qed
qed


text \<open>
  Claim C8: for a batch in state Broadcast, a cancellation request returns the batch
  key and leaves the batch as it is. Whatever requests and caretaker steps follow, the
  cancellation requests among them change nothing: the state is the one the caretaker
  steps alone lead to, Confirmed after the first and Finalized after the second.
\<close>

theorem cancel_after_broadcast:
  assumes "BatchState b = BatchStateBroadcast"
  shows "fst (fst (CancelBatch b)) = Some (BatchKey b) \<and> snd (CancelBatch b) = b \<and>
         fold applyEvent evs b =
           b\<lparr>BatchState :=
               (nextState ^^ length (filter (\<lambda>ev. ev = CaretakerStep) evs))
                 BatchStateBroadcast\<rparr> \<and>
         BatchState (fold applyEvent (replicate n CancelRequest) b) = BatchStateBroadcast \<and>
         nextState BatchStateBroadcast = BatchStateConfirmed \<and>
         nextState (nextState BatchStateBroadcast) = BatchStateFinalized"
proof -
  from assms have a: "afterBroadcast (BatchState b)"
    by (simp add: afterBroadcast_def)
  have "filter (\<lambda>ev. ev = CaretakerStep) (replicate n CancelRequest) = []"
    by simp
  with fold_applyEvent_afterBroadcast [OF a, of "replicate n CancelRequest"] assms
  have "BatchState (fold applyEvent (replicate n CancelRequest) b) = BatchStateBroadcast"
    by simp
  with CancelBatch_afterBroadcast [OF a] fold_applyEvent_afterBroadcast [OF a, of evs] assms
  show ?thesis by simp
qed

theorem cancel_after_broadcast_witness:
  "BatchState (toyBatch BatchStateBroadcast) = BatchStateBroadcast \<and>
   fst (fst (CancelBatch (toyBatch BatchStateBroadcast))) = Some \<lparr>pk_x = 5, pk_y = 1\<rparr> \<and>
   snd (CancelBatch (toyBatch BatchStateBroadcast)) = toyBatch BatchStateBroadcast \<and>
   fold applyEvent [CancelRequest, CaretakerStep, CancelRequest, CaretakerStep, CancelRequest]
     (toyBatch BatchStateBroadcast) = toyBatch BatchStateFinalized"
proof -
  let ?evs = "[CancelRequest, CaretakerStep, CancelRequest, CaretakerStep, CancelRequest]"
  have b: "BatchState (toyBatch BatchStateBroadcast) = BatchStateBroadcast"
    by (simp add: toyBatch_def)
  have e: "(nextState ^^ length (filter (\<lambda>ev. ev = CaretakerStep) ?evs)) BatchStateBroadcast =
      BatchStateFinalized"
    by (simp add: numeral_2_eq_2)
  have r: "(toyBatch BatchStateBroadcast)\<lparr>BatchState := BatchStateFinalized\<rparr> =
      toyBatch BatchStateFinalized"
    by (simp add: toyBatch_def)
  have k: "BatchKey (toyBatch BatchStateBroadcast) = \<lparr>pk_x = 5, pk_y = 1\<rparr>"
    by (simp add: toyBatch_def)
  from cancel_after_broadcast [OF b, of ?evs 0] b show ?thesis
    unfolding e r k by blast
qed

end
